theory Spec2Isabelle
  imports Main "HOL-Library.Word"
begin

unbundle bit_operations_syntax

section \<open>The STM32 serial bootloader client (stm32\_loader.py)\<close>

text \<open>
  The model follows the Python 3 branches of the source (\<open>bchr x = bytes([x])\<close>, a
  \<open>bytes\<close> value is a list of integers in 0..255). A byte is an 8-bit word, a Python
  integer is an \<open>int\<close>.
\<close>

type_synonym u8 = "8 word"

subsection \<open>Constants (lines 25--46)\<close>

definition ACK :: u8 where "ACK = 0x79"
definition NACK :: u8 where "NACK = 0x1F"
definition SYNCHRONIZATION_BYTE :: u8 where "SYNCHRONIZATION_BYTE = 0x7F"
definition WRITE_BLOCK_SIZE :: nat where "WRITE_BLOCK_SIZE = 256"
definition READ_BLOCK_SIZE :: int where "READ_BLOCK_SIZE = 256"
definition CMD_GET :: u8 where "CMD_GET = 0x00"
definition CMD_GET_VERSION_AND_PROTECTION_STATUS :: u8 where
  "CMD_GET_VERSION_AND_PROTECTION_STATUS = 0x01"
definition CMD_GET_ID :: u8 where "CMD_GET_ID = 0x02"
definition CMD_READ_MEMORY :: u8 where "CMD_READ_MEMORY = 0x11"
definition CMD_GO :: u8 where "CMD_GO = 0x21"
definition CMD_WRITE_MEMORY :: u8 where "CMD_WRITE_MEMORY = 0x31"
definition CMD_ERASE :: u8 where "CMD_ERASE = 0x43"
definition CMD_EXTENDED_ERASE :: u8 where "CMD_EXTENDED_ERASE = 0x44"
definition CMD_WRITE_UNPROTECT :: u8 where "CMD_WRITE_UNPROTECT = 0x73"
definition CMD_READOUT_UNPROTECT :: u8 where "CMD_READOUT_UNPROTECT = 0x92"
definition DEFAULT_FLASH_ADDRESS :: int where "DEFAULT_FLASH_ADDRESS = 0x08000000"

subsection \<open>Exceptions\<close>

text \<open>
  The three exception classes of the source (lines 51--60), the base class with the
  message it is raised with, and the two exceptions the Python library raises inside the
  source's own expressions: \<open>struct.error\<close> from \<open>struct.pack('>I', address)\<close> for an
  address outside 0..2^32-1 and \<open>ValueError\<close> from \<open>bytes([x])\<close> for x outside 0..255.
\<close>

datatype failure =
    Invalid_response_while_waiting_for_ACK u8
  | GET_ID_Unexpected_number_of_bytes
  | Invalid_data_length
  | Verification_failed

datatype error =
    STM32LoaderException failure
  | STM32LoaderTimeoutException
  | STM32LoaderNACKException
  | Struct_error
  | Value_error
  | Index_error

subsection \<open>The observable trace and the loader state\<close>

text \<open>
  The second argument of a progress report made by the block transfer functions is
  either the float quotient \<open>offset / float(total)\<close>, kept as its two operands, or the
  literal \<open>1.0\<close>.
\<close>

datatype fraction = Quotient int int | One_point_zero

text \<open>
  Everything the loader does to its surroundings is one event, in the order of
  execution: the calls on the serial port (\<open>flushInput\<close>, \<open>write\<close> with its argument,
  \<open>read\<close> with the requested count, \<open>close\<close>), \<open>time.sleep\<close>, the lines given to the
  logger, and the calls of the progress callback.
\<close>

datatype event =
    Flush_input
  | Write "u8 list"
  | Read nat
  | Sleep nat
  | Close
  | Debug_executing u8
  | Debug_resynchronizing
  | Info_target_commands "u8 list"
  | Info_target_info u8 "u8 list"
  | Info_target_id int
  | Progress_report string "fraction option"

text \<open>
  The serial port is an external collaborator. Its input side is a script: the n-th
  element of \<open>replies\<close> is what the n-th call of \<open>io.read\<close> with a positive count
  returns (cut to the requested count, as the library never returns more); past the end
  of the script every read times out and returns nothing. Bytes that \<open>flushInput\<close>
  discards are never returned by a read, so they do not occur in the script. Writes,
  flushes and \<open>close\<close> are taken to succeed.
\<close>

record STM32Loader =
  synchronization_prefix :: "u8 list"
  replies :: "u8 list list"
  events :: "event list"

type_synonym 'a action = "STM32Loader \<Rightarrow> (error + 'a) \<times> STM32Loader"

definition return :: "'a \<Rightarrow> 'a action" where
  "return v s = (Inr v, s)"

definition raise :: "error \<Rightarrow> 'a action" where
  "raise e s = (Inl e, s)"

definition bind :: "'a action \<Rightarrow> ('a \<Rightarrow> 'b action) \<Rightarrow> 'b action" where
  "bind m f s = (case m s of (Inl e, s') \<Rightarrow> (Inl e, s') | (Inr v, s') \<Rightarrow> f v s')"

definition emit :: "event \<Rightarrow> unit action" where
  "emit ev s = (Inr (), s\<lparr>events := events s @ [ev]\<rparr>)"

subsection \<open>Reading and writing (lines 73--95)\<close>

definition io_read :: "nat \<Rightarrow> (u8 list) action" where
  "io_read num_bytes s =
     (let s' = s\<lparr>events := events s @ [Read num_bytes]\<rparr> in
      if num_bytes = 0 then (Inr [], s')
      else case replies s of
             [] \<Rightarrow> (Inr [], s')
           | r # rs \<Rightarrow> (Inr (take num_bytes r), s'\<lparr>replies := rs\<rparr>))"

definition read_bytes :: "nat \<Rightarrow> (u8 list) action" where
  "read_bytes num_bytes =
     bind (io_read num_bytes) (\<lambda>x.
       if length x \<noteq> num_bytes then raise STM32LoaderTimeoutException
       else return x)"

definition read_byte :: "u8 action" where
  "read_byte =
     bind (read_bytes 1) (\<lambda>xs.
       case xs of [] \<Rightarrow> raise Index_error | x # _ \<Rightarrow> return x)"

definition write_out :: "u8 list \<Rightarrow> unit action" where
  "write_out data = emit (Write data)"

definition wait_for_ack :: "unit action" where
  "wait_for_ack =
     bind read_byte (\<lambda>x.
       if x = NACK then raise STM32LoaderNACKException
       else if x \<noteq> ACK then
         raise (STM32LoaderException (Invalid_response_while_waiting_for_ACK x))
       else return ())"

subsection \<open>Commands (lines 97--210)\<close>

definition synchronize :: "bool \<Rightarrow> unit action" where
  "synchronize skip_prefix =
     bind (emit Flush_input) (\<lambda>_.
     bind (\<lambda>s. (if synchronization_prefix s \<noteq> [] \<and> \<not> skip_prefix
                 then bind (write_out (synchronization_prefix s)) (\<lambda>_. emit (Sleep 1))
                 else return ()) s) (\<lambda>_.
     bind (write_out [SYNCHRONIZATION_BYTE]) (\<lambda>_.
     bind (emit (Sleep 1)) (\<lambda>_.
     emit Flush_input))))"

definition generic_execute_and_confirm :: "u8 \<Rightarrow> unit action" where
  "generic_execute_and_confirm cmd =
     bind (emit (Debug_executing cmd)) (\<lambda>_.
     bind (write_out [cmd]) (\<lambda>_.
     bind (write_out [cmd XOR 0xFF]) (\<lambda>_.
     wait_for_ack)))"

record device_info =
  version :: u8
  commands :: "u8 list"

definition get :: "device_info action" where
  "get =
     bind (generic_execute_and_confirm CMD_GET) (\<lambda>_.
     bind read_byte (\<lambda>response_length.
     bind read_byte (\<lambda>bl_version.
     bind (read_bytes (unat response_length)) (\<lambda>available_commands.
     bind wait_for_ack (\<lambda>_.
     return \<lparr>version = bl_version, commands = available_commands\<rparr>)))))"

definition get_version_and_protection_status :: "(u8 \<times> u8 list) action" where
  "get_version_and_protection_status =
     bind (generic_execute_and_confirm CMD_GET_VERSION_AND_PROTECTION_STATUS) (\<lambda>_.
     bind read_byte (\<lambda>bl_version.
     bind read_byte (\<lambda>option_byte_1.
     bind read_byte (\<lambda>option_byte_2.
     bind wait_for_ack (\<lambda>_.
     return (bl_version, [option_byte_1, option_byte_2]))))))"

definition get_id :: "int action" where
  "get_id =
     bind (generic_execute_and_confirm CMD_GET_ID) (\<lambda>_.
     bind read_byte (\<lambda>response_length.
     if response_length \<noteq> 1
     then raise (STM32LoaderException GET_ID_Unexpected_number_of_bytes)
     else
     bind read_byte (\<lambda>id_msb.
     bind read_byte (\<lambda>id_lsb.
     bind wait_for_ack (\<lambda>_.
     return (push_bit 8 (uint id_msb) OR uint id_lsb))))))"

definition write_unprotect :: "unit action" where
  "write_unprotect =
     bind (generic_execute_and_confirm CMD_WRITE_UNPROTECT) (\<lambda>_. wait_for_ack)"

definition readout_unprotect :: "unit action" where
  "readout_unprotect =
     bind (generic_execute_and_confirm CMD_READOUT_UNPROTECT) (\<lambda>_. wait_for_ack)"

text \<open>
  \<open>struct.pack('>I', address)\<close> gives the four big-endian bytes of an address in
  0..2^32-1 and raises otherwise; \<open>reduce\<close> without a start value folds from the first
  byte.
\<close>

definition encode_address_with_checksum :: "int \<Rightarrow> error + u8 list" where
  "encode_address_with_checksum address =
     (if address < 0 \<or> 2 ^ 32 \<le> address then Inl Struct_error
      else
        let address_bytes =
              [word_of_int (drop_bit 24 address), word_of_int (drop_bit 16 address),
               word_of_int (drop_bit 8 address), word_of_int address] :: u8 list
        in Inr (address_bytes @
                [foldl (\<lambda>a x. a XOR x) (hd address_bytes) (tl address_bytes)]))"

definition lift :: "error + 'a \<Rightarrow> 'a action" where
  "lift r s = (r, s)"

definition bchr :: "int \<Rightarrow> error + u8 list" where
  "bchr x = (if 0 \<le> x \<and> x < 256 then Inr [word_of_int x] else Inl Value_error)"

definition read_memory :: "int \<Rightarrow> int \<Rightarrow> (u8 list) action" where
  "read_memory start_address length_arg =
     bind (generic_execute_and_confirm CMD_READ_MEMORY) (\<lambda>_.
     bind (lift (encode_address_with_checksum start_address)) (\<lambda>address_bytes.
     bind (write_out address_bytes) (\<lambda>_.
     bind wait_for_ack (\<lambda>_.
     let encoded_length = min length_arg 256 - 1 in
     bind (lift (bchr encoded_length)) (\<lambda>b.
     bind (write_out b) (\<lambda>_.
     bind (lift (bchr (encoded_length XOR 0xFF))) (\<lambda>c.
     bind (write_out c) (\<lambda>_.
     bind wait_for_ack (\<lambda>_.
     read_bytes (nat length_arg))))))))))"

text \<open>
  In \<open>write_memory\<close> the length check leaves \<open>len(data) - 1\<close> in 0..255, and the
  checksum is an exclusive or of bytes: both are bytes, so \<open>bchr\<close> cannot raise there
  and the exclusive or of Python integers is the one of 8-bit words.
\<close>

definition write_memory :: "int \<Rightarrow> u8 list \<Rightarrow> unit action" where
  "write_memory start_address data =
     (if length data > 256 \<or> length data = 0 \<or> length data mod 4 \<noteq> 0
      then raise (STM32LoaderException Invalid_data_length)
      else
     bind (generic_execute_and_confirm CMD_WRITE_MEMORY) (\<lambda>_.
     bind (lift (encode_address_with_checksum start_address)) (\<lambda>address_bytes.
     bind (write_out address_bytes) (\<lambda>_.
     bind wait_for_ack (\<lambda>_.
     let encoded_length = of_nat (length data - 1) :: u8 in
     bind (write_out [encoded_length]) (\<lambda>_.
     let checksum = foldl (\<lambda>a x. a XOR x) encoded_length data in
     bind (write_out data) (\<lambda>_.
     bind (write_out [checksum]) (\<lambda>_.
     wait_for_ack))))))))"

definition global_erase :: "unit action" where
  "global_erase =
     bind (generic_execute_and_confirm CMD_ERASE) (\<lambda>_.
     bind (write_out [0xFF, 0x00]) (\<lambda>_.
     wait_for_ack))"

definition extended_erase :: "unit action" where
  "extended_erase =
     bind (generic_execute_and_confirm CMD_EXTENDED_ERASE) (\<lambda>_.
     bind (write_out [0xFF, 0xFF, 0x00]) (\<lambda>_.
     wait_for_ack))"

definition go :: "int \<Rightarrow> unit action" where
  "go start_address =
     bind (generic_execute_and_confirm CMD_GO) (\<lambda>_.
     bind (lift (encode_address_with_checksum start_address)) (\<lambda>address_bytes.
     bind (write_out address_bytes) (\<lambda>_.
     wait_for_ack)))"

subsection \<open>Block transfer (lines 212--246)\<close>

text \<open>
  The callback parameter of the block functions is the event one call of it leaves in
  the trace. The \<open>while\<close> loops carry their local variables as arguments and stop at
  the first exception.
\<close>

function read_memory_blocks_while ::
  "int \<Rightarrow> int \<Rightarrow> (fraction \<Rightarrow> event) \<Rightarrow> int \<Rightarrow> int \<Rightarrow> u8 list \<Rightarrow> (int \<times> int \<times> u8 list) action"
where
  "read_memory_blocks_while start_address original_length progress_report_callback
       length_var offset output s =
     (if length_var > READ_BLOCK_SIZE then
        (case read_memory (start_address + offset) READ_BLOCK_SIZE s of
           (Inl e, s') \<Rightarrow> (Inl e, s')
         | (Inr chunk, s') \<Rightarrow>
             read_memory_blocks_while start_address original_length progress_report_callback
               (length_var - READ_BLOCK_SIZE) (offset + READ_BLOCK_SIZE) (output @ chunk)
               (snd (emit (progress_report_callback
                        (Quotient (offset + READ_BLOCK_SIZE) original_length)) s')))
      else (Inr (length_var, offset, output), s))"
  by pat_completeness auto
termination
  by (relation "measure (\<lambda>(a, ol, cb, l, off, out, s). nat l)")
     (auto simp: READ_BLOCK_SIZE_def)

declare read_memory_blocks_while.simps [simp del]

definition read_memory_blocks :: "int \<Rightarrow> int \<Rightarrow> (fraction \<Rightarrow> event) \<Rightarrow> (u8 list) action" where
  "read_memory_blocks start_address length_arg progress_report_callback =
     bind (read_memory_blocks_while start_address length_arg progress_report_callback
             length_arg 0 []) (\<lambda>(length_var, offset, output).
     bind (if length_var > 0
           then bind (read_memory (start_address + offset) length_var) (\<lambda>chunk.
                  return (output @ chunk))
           else return output) (\<lambda>output.
     bind (emit (progress_report_callback One_point_zero)) (\<lambda>_.
     return output)))"

function write_memory_blocks_while ::
  "int \<Rightarrow> u8 list \<Rightarrow> (fraction \<Rightarrow> event) \<Rightarrow> nat \<Rightarrow> nat \<Rightarrow> (nat \<times> nat) action"
where
  "write_memory_blocks_while start_address data progress_report_callback length_var offset s =
     (if length_var > WRITE_BLOCK_SIZE then
        (case write_memory (start_address + int offset)
                (take WRITE_BLOCK_SIZE (drop offset data)) s of
           (Inl e, s') \<Rightarrow> (Inl e, s')
         | (Inr _, s') \<Rightarrow>
             write_memory_blocks_while start_address data progress_report_callback
               (length_var - WRITE_BLOCK_SIZE) (offset + WRITE_BLOCK_SIZE)
               (snd (emit (progress_report_callback
                        (Quotient (int (offset + WRITE_BLOCK_SIZE)) (int (length data)))) s')))
      else (Inr (length_var, offset), s))"
  by pat_completeness auto
termination
  by (relation "measure (\<lambda>(a, d, cb, l, off, s). l)")
     (auto simp: WRITE_BLOCK_SIZE_def)

declare write_memory_blocks_while.simps [simp del]

definition write_memory_blocks :: "int \<Rightarrow> u8 list \<Rightarrow> (fraction \<Rightarrow> event) \<Rightarrow> unit action" where
  "write_memory_blocks start_address data progress_report_callback =
     bind (write_memory_blocks_while start_address data progress_report_callback
             (length data) 0) (\<lambda>(length_var, offset).
     bind (if length_var > 0
           then write_memory (start_address + int offset)
                  (take length_var (drop offset data))
           else return ()) (\<lambda>_.
     emit (progress_report_callback One_point_zero)))"

subsection \<open>The session: \<open>load\<close> (lines 249--321)\<close>

function pad_image :: "u8 list \<Rightarrow> u8 list" where
  "pad_image binary_image =
     (if length binary_image mod 4 \<noteq> 0 then pad_image (binary_image @ [0xFF])
      else binary_image)"
  by pat_completeness auto
termination
  by (relation "measure (\<lambda>binary_image. 3 - (length binary_image + 3) mod 4)")
     (auto, presburger)

declare pad_image.simps [simp del]

text \<open>\<open>try: m except Exception: pass\<close>\<close>

definition try_pass :: "'a action \<Rightarrow> unit action" where
  "try_pass m s = (case m s of (Inl e, s') \<Rightarrow> (Inr (), s') | (Inr v, s') \<Rightarrow> (Inr (), s'))"

text \<open>
  The loop \<open>for _ in range(3)\<close> of lines 274--280, with the number of rounds left as
  argument: a successful \<open>get\<close> leaves the loop, a failed one is caught, logged and
  followed by \<open>synchronize(skip_prefix=True)\<close>.
\<close>

fun load_for_range :: "nat \<Rightarrow> unit action" where
  "load_for_range 0 s = (Inr (), s)"
| "load_for_range (Suc n) s =
     (case get s of
        (Inr _, s') \<Rightarrow> (Inr (), s')
      | (Inl _, s') \<Rightarrow>
          (case bind (emit Debug_resynchronizing) (\<lambda>_. synchronize True) s' of
             (Inl e, s'') \<Rightarrow> (Inl e, s'')
           | (Inr _, s'') \<Rightarrow> load_for_range n s''))"

text \<open>Lines 267--280: the first synchronization and the retried command.\<close>

definition load_synchronization :: "unit action" where
  "load_synchronization =
     bind (try_pass (synchronize False)) (\<lambda>_. load_for_range 3)"

text \<open>Lines 283--287: the device information that the later steps use, and the log.\<close>

definition load_general_info :: "device_info action" where
  "load_general_info =
     bind get (\<lambda>var_get.
     bind (emit (Info_target_commands (commands var_get))) (\<lambda>_.
     bind get_version_and_protection_status (\<lambda>(bl_version, option_bytes).
     bind (emit (Info_target_info bl_version option_bytes)) (\<lambda>_.
     bind get_id (\<lambda>target_id.
     bind (emit (Info_target_id target_id)) (\<lambda>_.
     return var_get))))))"

text \<open>Lines 290--298.\<close>

definition load_unprotect :: "bool \<Rightarrow> bool \<Rightarrow> unit action" where
  "load_unprotect readout_unprotect_arg write_unprotect_arg =
     bind (emit (Progress_report ''Configuring target'' None)) (\<lambda>_.
     bind (if readout_unprotect_arg
           then bind readout_unprotect (\<lambda>_. synchronize False)
           else return ()) (\<lambda>_.
     if write_unprotect_arg
     then bind write_unprotect (\<lambda>_. synchronize False)
     else return ()))"

text \<open>Lines 300--303.\<close>

definition load_erase :: "device_info \<Rightarrow> unit action" where
  "load_erase var_get =
     (if CMD_ERASE \<in> set (commands var_get) then global_erase else extended_erase)"

text \<open>Lines 267--298: up to the erase, giving the device information of line 283.\<close>

definition load_configure :: "bool \<Rightarrow> bool \<Rightarrow> device_info action" where
  "load_configure readout_unprotect_arg write_unprotect_arg =
     bind load_synchronization (\<lambda>_.
     bind load_general_info (\<lambda>var_get.
     bind (load_unprotect readout_unprotect_arg write_unprotect_arg) (\<lambda>_.
     return var_get)))"

text \<open>Lines 267--312: everything in the \<open>try\<close> block up to the read-back.\<close>

definition load_readback :: "bool \<Rightarrow> bool \<Rightarrow> int \<Rightarrow> u8 list \<Rightarrow> (u8 list) action" where
  "load_readback readout_unprotect_arg write_unprotect_arg load_address binary_image =
     bind (load_configure readout_unprotect_arg write_unprotect_arg) (\<lambda>var_get.
     bind (load_erase var_get) (\<lambda>_.
     bind (write_memory_blocks load_address binary_image
             (\<lambda>x. Progress_report ''Writing image'' (Some x))) (\<lambda>_.
     read_memory_blocks load_address (int (length binary_image))
       (\<lambda>x. Progress_report ''Verification'' (Some x)))))"

text \<open>Lines 267--318: the \<open>try\<close> block.\<close>

definition load_try :: "bool \<Rightarrow> bool \<Rightarrow> bool \<Rightarrow> int \<Rightarrow> u8 list \<Rightarrow> unit action" where
  "load_try readout_unprotect_arg write_unprotect_arg go_arg load_address binary_image =
     bind (load_readback readout_unprotect_arg write_unprotect_arg load_address binary_image)
       (\<lambda>readback.
     bind (if readback \<noteq> binary_image
           then raise (STM32LoaderException Verification_failed)
           else return ()) (\<lambda>_.
     if go_arg then go load_address else return ()))"

text \<open>Lines 306--318: what follows the erase.\<close>

definition load_transfer :: "bool \<Rightarrow> int \<Rightarrow> u8 list \<Rightarrow> unit action" where
  "load_transfer go_arg load_address binary_image =
     bind (write_memory_blocks load_address binary_image
             (\<lambda>x. Progress_report ''Writing image'' (Some x))) (\<lambda>_.
     bind (read_memory_blocks load_address (int (length binary_image))
             (\<lambda>x. Progress_report ''Verification'' (Some x))) (\<lambda>readback.
     bind (if readback \<noteq> binary_image
           then raise (STM32LoaderException Verification_failed)
           else return ()) (\<lambda>_.
     if go_arg then go load_address else return ())))"

text \<open>
  \<open>load\<close>: \<open>port\<close> is the reply script of the serial port that the constructor opens,
  \<open>load_address\<close> and \<open>synchronization_prefix\<close> are \<open>None\<close> when not given (and
  \<open>x or default\<close> takes the default for 0 and for the empty prefix as well). The result
  is the exception or \<open>()\<close>, with the loader state after \<open>close\<close>.
\<close>

definition load_address_or_default :: "int option \<Rightarrow> int" where
  "load_address_or_default load_address =
     (case load_address of None \<Rightarrow> DEFAULT_FLASH_ADDRESS
      | Some a \<Rightarrow> if a = 0 then DEFAULT_FLASH_ADDRESS else a)"

text \<open>
  The loader as the \<open>try\<close> block finds it: the progress callback has been called with
  \<open>('Synchronization', None)\<close> (line 264) and the constructor has run (line 265).
\<close>

definition new_loader :: "u8 list list \<Rightarrow> u8 list option \<Rightarrow> STM32Loader" where
  "new_loader port synchronization_prefix_arg =
     \<lparr>synchronization_prefix =
        (case synchronization_prefix_arg of None \<Rightarrow> [] | Some p \<Rightarrow> p),
      replies = port,
      events = [Progress_report ''Synchronization'' None]\<rparr>"

text \<open>\<open>loader.close()\<close> of the \<open>finally\<close> clause.\<close>

definition close :: "STM32Loader \<Rightarrow> STM32Loader" where
  "close loader = loader\<lparr>events := events loader @ [Close]\<rparr>"

definition load ::
  "u8 list list \<Rightarrow> u8 list \<Rightarrow> int option \<Rightarrow> bool \<Rightarrow> bool \<Rightarrow> bool \<Rightarrow> u8 list option
   \<Rightarrow> (error + unit) \<times> STM32Loader"
where
  "load port binary_image load_address readout_unprotect_arg write_unprotect_arg go_arg
       synchronization_prefix_arg =
     (let (result, loader) =
            load_try readout_unprotect_arg write_unprotect_arg go_arg
              (load_address_or_default load_address) (pad_image binary_image)
              (new_loader port synchronization_prefix_arg)
      in (result, close loader))"

section \<open>Notions used to state the properties\<close>

text \<open>The value of four bytes read as a big-endian number (the inverse of the packing).\<close>

definition decode_address :: "u8 list \<Rightarrow> int" where
  "decode_address bs = foldl (\<lambda>a b. a * 256 + uint b) 0 bs"

text \<open>
  The commands of a trace, in order: \<open>generic_execute_and_confirm\<close> logs every command
  it sends (line 107), and no command is sent in any other way.
\<close>

fun executed :: "event list \<Rightarrow> u8 list" where
  "executed [] = []"
| "executed (Debug_executing cmd # evs) = cmd # executed evs"
| "executed (_ # evs) = executed evs"

text \<open>Lines 279--280: what follows a failed \<open>get\<close> inside the loop.\<close>

definition resynchronize :: "STM32Loader \<Rightarrow> STM32Loader" where
  "resynchronize s = snd (bind (emit Debug_resynchronizing) (\<lambda>_. synchronize True) s)"

text \<open>
  An action appends events with property \<open>P\<close> only; the replies it consumes are a
  prefix of the script and it leaves the prefix setting alone.
\<close>

definition emits_only :: "(event \<Rightarrow> bool) \<Rightarrow> 'a action \<Rightarrow> bool" where
  "emits_only P m =
     (\<forall>s. \<exists>evs. events (snd (m s)) = events s @ evs \<and> list_all P evs)"

definition port_events :: "(event \<Rightarrow> bool) \<Rightarrow> bool" where
  "port_events P =
     ((\<forall>d. P (Write d)) \<and> (\<forall>n. P (Read n)) \<and> (\<forall>n. P (Sleep n)) \<and> P Flush_input)"

definition log_events :: "(event \<Rightarrow> bool) \<Rightarrow> bool" where
  "log_events P =
     ((\<forall>cs. P (Info_target_commands cs)) \<and> (\<forall>v bs. P (Info_target_info v bs)) \<and>
      (\<forall>i. P (Info_target_id i)) \<and> (\<forall>st x. P (Progress_report st x)) \<and>
      P Debug_resynchronizing)"

text \<open>The events of the port and the clock: no log line, no progress report, no \<open>close\<close>.\<close>

definition plain :: "event \<Rightarrow> bool" where
  "plain ev = (case ev of Debug_executing _ \<Rightarrow> False | Progress_report _ _ \<Rightarrow> False
                | Close \<Rightarrow> False | _ \<Rightarrow> True)"

text \<open>
  Two devices for the examples. The first answers every command of a \<open>load\<close> of one
  block: GET twice (one command byte, 0x43), the version, the identifier, the erase,
  one write, one read that returns \<open>readback\<close>, and GO. The second rejects the first
  three GET commands and then answers like the first.
\<close>

definition good_device :: "u8 list \<Rightarrow> u8 list list" where
  "good_device readback =
     [[0x79], [0x01], [0x22], [0x43], [0x79],
      [0x79], [0x01], [0x22], [0x43], [0x79],
      [0x79], [0x22], [0x00], [0x00], [0x79],
      [0x79], [0x01], [0x04], [0x10], [0x79],
      [0x79], [0x79],
      [0x79], [0x79], [0x79],
      [0x79], [0x79], [0x79], readback,
      [0x79], [0x79]]"

definition nack_device :: "u8 list list" where
  "nack_device = [[0x1F], [0x1F], [0x1F]] @ drop 5 (good_device [1, 2, 3, 4])"

text \<open>
  The events that mark the steps of a block transfer: the command log line of each chunk
  and the calls of the progress callback.
\<close>

definition is_step :: "event \<Rightarrow> bool" where
  "is_step ev = (case ev of Debug_executing _ \<Rightarrow> True | Progress_report _ _ \<Rightarrow> True
                 | _ \<Rightarrow> False)"

text \<open>
  The callback \<open>partial(progress_report_callback, stage)\<close> that \<open>load\<close> gives to the
  block functions (lines 306 and 310).
\<close>

definition reporter :: "string \<Rightarrow> fraction \<Rightarrow> event" where
  "reporter stage x = Progress_report stage (Some x)"

subsection \<open>The image on the wire\<close>

text \<open>
  The blocks of at most 256 bytes in which \<open>write_memory_blocks\<close> sends its data, and the
  loop of \<open>write_memory_blocks\<close> (lines 237--244) as a recursion over such a list of
  blocks; the lemma \<open>write_memory_blocks_chunks\<close> below shows that the loop of the source is
  this recursion over \<open>chunks data\<close>.
\<close>

fun chunks :: "u8 list \<Rightarrow> u8 list list" where
  "chunks data = (if data = [] then [] else take 256 data # chunks (drop 256 data))"

declare chunks.simps [simp del]

fun write_chunks ::
  "int \<Rightarrow> nat \<Rightarrow> (fraction \<Rightarrow> event) \<Rightarrow> nat \<Rightarrow> u8 list list \<Rightarrow> unit action"
where
  "write_chunks start_address total_length progress_report_callback offset [] = return ()"
| "write_chunks start_address total_length progress_report_callback offset (chunk # rest) =
     bind (write_memory (start_address + int offset) chunk) (\<lambda>_.
     if rest = [] then return ()
     else bind (emit (progress_report_callback
                  (Quotient (int (offset + length chunk)) (int total_length)))) (\<lambda>_.
          write_chunks start_address total_length progress_report_callback
            (offset + length chunk) rest))"

text \<open>
  The bytes written to the port in a trace, the bytes of one WRITE MEMORY command
  (lines 172--194: command and complement, address with checksum, length byte, data,
  checksum; the command and its complement alone for an address that cannot be encoded)
  and of a sequence of them at consecutive offsets. An action \<open>sends bytes\<close> when on every state it writes a prefix
  of \<open>bytes\<close> to the port, and all of them when it succeeds.
\<close>

fun sent :: "event list \<Rightarrow> u8 list" where
  "sent [] = []"
| "sent (Write data # evs) = data @ sent evs"
| "sent (_ # evs) = sent evs"

definition frame :: "int \<Rightarrow> u8 list \<Rightarrow> u8 list" where
  "frame address chunk =
     [CMD_WRITE_MEMORY, CMD_WRITE_MEMORY XOR 0xFF] @
     (case encode_address_with_checksum address of
        Inl _ \<Rightarrow> []
      | Inr address_bytes \<Rightarrow>
          address_bytes @ [of_nat (length chunk - 1)] @ chunk @
          [foldl (\<lambda>a x. a XOR x) (of_nat (length chunk - 1)) chunk])"

fun frames :: "int \<Rightarrow> nat \<Rightarrow> u8 list list \<Rightarrow> u8 list" where
  "frames start_address offset [] = []"
| "frames start_address offset (chunk # rest) =
     frame (start_address + int offset) chunk @
     frames start_address (offset + length chunk) rest"

definition sends :: "'a action \<Rightarrow> u8 list \<Rightarrow> bool" where
  "sends m bytes =
     (\<forall>s. \<exists>p q. sent (events (snd (m s))) = sent (events s) @ p \<and> p @ q = bytes \<and>
        (\<forall>u. fst (m s) = Inr u \<longrightarrow> q = []))"

section \<open>Running the actions step by step\<close>

lemma bind_assoc: "bind (bind m g) f = bind m (\<lambda>x. bind (g x) f)"
  by (rule ext) (simp add: bind_def split: prod.splits sum.splits)

lemma bind_return: "bind (return v) f s = f v s"
  by (simp add: bind_def return_def)

lemma bind_raise: "bind (raise e) f s = (Inl e, s)"
  by (simp add: bind_def raise_def)

lemma bind_emit: "bind (emit ev) f s = f () (s\<lparr>events := events s @ [ev]\<rparr>)"
  by (simp add: bind_def emit_def)

lemma bind_write_out: "bind (write_out d) f s = f () (s\<lparr>events := events s @ [Write d]\<rparr>)"
  by (simp add: write_out_def bind_emit)

lemma bind_lift_Inr: "bind (lift (Inr v)) f s = f v s"
  by (simp add: bind_def lift_def)

lemma bind_lift_Inl: "bind (lift (Inl e)) f s = (Inl e, s)"
  by (simp add: bind_def lift_def)

section \<open>What an action can add to the trace\<close>

lemma emits_onlyI:
  "(\<And>s. \<exists>evs. events (snd (m s)) = events s @ evs \<and> list_all P evs) \<Longrightarrow> emits_only P m"
  by (simp add: emits_only_def)

lemma emits_onlyD:
  "emits_only P m \<Longrightarrow> \<exists>evs. events (snd (m s)) = events s @ evs \<and> list_all P evs"
  by (simp add: emits_only_def)

lemma emits_only_return [intro!]: "emits_only P (return v)"
  by (simp add: emits_only_def return_def)

lemma emits_only_raise [intro!]: "emits_only P (raise e)"
  by (simp add: emits_only_def raise_def)

lemma emits_only_lift [intro!]: "emits_only P (lift r)"
  by (simp add: emits_only_def lift_def)

lemma emits_only_emit: "P ev \<Longrightarrow> emits_only P (emit ev)"
  by (simp add: emits_only_def emit_def)

lemma emits_only_bind:
  assumes m: "emits_only P m" and f: "\<And>v. emits_only P (f v)"
  shows "emits_only P (bind m f)"
proof (rule emits_onlyI)
  fix s
  obtain r s1 where ms: "m s = (r, s1)" by (cases "m s")
  from emits_onlyD [OF m, of s] ms obtain evs where
    e1: "events s1 = events s @ evs" and p1: "list_all P evs" by auto
  show "\<exists>evs. events (snd (bind m f s)) = events s @ evs \<and> list_all P evs"
  proof (cases r)
    case (Inl e)
    with ms e1 p1 show ?thesis by (auto simp: bind_def)
  next
    case (Inr v)
    from emits_onlyD [OF f, of v s1] obtain evs' where
      "events (snd (f v s1)) = events s1 @ evs'" and "list_all P evs'" by auto
    with ms e1 p1 Inr show ?thesis by (auto simp: bind_def)
  qed
qed

lemma emits_only_if:
  "emits_only P m1 \<Longrightarrow> emits_only P m2 \<Longrightarrow> emits_only P (if b then m1 else m2)"
  by simp

lemma emits_only_io_read: "P (Read n) \<Longrightarrow> emits_only P (io_read n)"
  by (auto simp: emits_only_def io_read_def Let_def split: list.splits)

lemma emits_only_read_bytes: "P (Read n) \<Longrightarrow> emits_only P (read_bytes n)"
  unfolding read_bytes_def
  by (intro emits_only_bind emits_only_io_read emits_only_if emits_only_raise emits_only_return)

lemma emits_only_read_byte: "P (Read 1) \<Longrightarrow> emits_only P read_byte"
  unfolding read_byte_def
  by (rule emits_only_bind, erule emits_only_read_bytes) (auto split: list.splits)

lemma emits_only_wait_for_ack: "P (Read 1) \<Longrightarrow> emits_only P wait_for_ack"
  unfolding wait_for_ack_def
  by (rule emits_only_bind, erule emits_only_read_byte) auto

lemma emits_only_write_out: "P (Write d) \<Longrightarrow> emits_only P (write_out d)"
  unfolding write_out_def by (rule emits_only_emit)

lemma emits_only_synchronize: "port_events P \<Longrightarrow> emits_only P (synchronize skip)"
  by (auto simp: emits_only_def synchronize_def port_events_def bind_def emit_def
      write_out_def return_def)

lemma emits_only_generic:
  "port_events P \<Longrightarrow> P (Debug_executing cmd) \<Longrightarrow> emits_only P (generic_execute_and_confirm cmd)"
  unfolding generic_execute_and_confirm_def
  by (intro emits_only_bind emits_only_emit emits_only_write_out emits_only_wait_for_ack)
     (auto simp: port_events_def)


lemmas emits_only_port =
  emits_only_bind emits_only_write_out emits_only_wait_for_ack emits_only_read_byte
  emits_only_read_bytes emits_only_generic emits_only_return emits_only_raise
  emits_only_lift emits_only_if

lemma emits_only_get:
  "port_events P \<Longrightarrow> P (Debug_executing CMD_GET) \<Longrightarrow> emits_only P get"
  unfolding get_def by (intro emits_only_port) (auto simp: port_events_def)

lemma emits_only_get_version:
  "port_events P \<Longrightarrow> P (Debug_executing CMD_GET_VERSION_AND_PROTECTION_STATUS) \<Longrightarrow>
   emits_only P get_version_and_protection_status"
  unfolding get_version_and_protection_status_def by (intro emits_only_port) (auto simp: port_events_def)

lemma emits_only_get_id:
  "port_events P \<Longrightarrow> P (Debug_executing CMD_GET_ID) \<Longrightarrow> emits_only P get_id"
  unfolding get_id_def by (intro emits_only_port) (auto simp: port_events_def)

lemma emits_only_write_unprotect:
  "port_events P \<Longrightarrow> P (Debug_executing CMD_WRITE_UNPROTECT) \<Longrightarrow> emits_only P write_unprotect"
  unfolding write_unprotect_def by (intro emits_only_port) (auto simp: port_events_def)

lemma emits_only_readout_unprotect:
  "port_events P \<Longrightarrow> P (Debug_executing CMD_READOUT_UNPROTECT) \<Longrightarrow>
   emits_only P readout_unprotect"
  unfolding readout_unprotect_def by (intro emits_only_port) (auto simp: port_events_def)

lemma emits_only_read_memory:
  "port_events P \<Longrightarrow> P (Debug_executing CMD_READ_MEMORY) \<Longrightarrow> emits_only P (read_memory a n)"
  unfolding read_memory_def Let_def by (intro emits_only_port) (auto simp: port_events_def)

lemma emits_only_write_memory:
  "port_events P \<Longrightarrow> P (Debug_executing CMD_WRITE_MEMORY) \<Longrightarrow> emits_only P (write_memory a d)"
  unfolding write_memory_def Let_def by (intro emits_only_port) (auto simp: port_events_def)

lemma emits_only_global_erase:
  "port_events P \<Longrightarrow> P (Debug_executing CMD_ERASE) \<Longrightarrow> emits_only P global_erase"
  unfolding global_erase_def by (intro emits_only_port) (auto simp: port_events_def)

lemma emits_only_extended_erase:
  "port_events P \<Longrightarrow> P (Debug_executing CMD_EXTENDED_ERASE) \<Longrightarrow> emits_only P extended_erase"
  unfolding extended_erase_def by (intro emits_only_port) (auto simp: port_events_def)

lemma emits_only_go:
  "port_events P \<Longrightarrow> P (Debug_executing CMD_GO) \<Longrightarrow> emits_only P (go a)"
  unfolding go_def by (intro emits_only_port) (auto simp: port_events_def)


lemma events_emit: "events (snd (emit ev s)) = events s @ [ev]"
  by (simp add: emit_def)

lemma emits_only_read_while:
  assumes "port_events P" and "P (Debug_executing CMD_READ_MEMORY)" and "\<And>x. P (cb x)"
  shows "emits_only P (read_memory_blocks_while a ol cb l off out)"
proof (rule emits_onlyI)
  fix s
  show "\<exists>evs. events (snd (read_memory_blocks_while a ol cb l off out s)) = events s @ evs
          \<and> list_all P evs"
    using assms(3)
  proof (induction a ol cb l off out s rule: read_memory_blocks_while.induct)
    case (1 a ol cb l off out s)
    show ?case
    proof (cases "l > READ_BLOCK_SIZE")
      case False
      then show ?thesis by (subst read_memory_blocks_while.simps) simp
    next
      case True
      obtain r s1 where rm: "read_memory (a + off) READ_BLOCK_SIZE s = (r, s1)"
        by (cases "read_memory (a + off) READ_BLOCK_SIZE s")
      from emits_onlyD [OF emits_only_read_memory [OF assms(1,2)], of "a + off" READ_BLOCK_SIZE s]
        rm obtain evs where e1: "events s1 = events s @ evs" and p1: "list_all P evs"
        by auto
      show ?thesis
      proof (cases r)
        case (Inl e)
        with True rm e1 p1 show ?thesis
          by (subst read_memory_blocks_while.simps) simp
      next
        case (Inr chunk)
        from "1.IH" [OF True rm [symmetric, unfolded Inr] refl "1.prems"] obtain evs' where
          "events (snd (read_memory_blocks_while a ol cb (l - READ_BLOCK_SIZE)
              (off + READ_BLOCK_SIZE) (out @ chunk)
              (snd (emit (cb (Quotient (off + READ_BLOCK_SIZE) ol)) s1)))) =
           events (snd (emit (cb (Quotient (off + READ_BLOCK_SIZE) ol)) s1)) @ evs'"
          and "list_all P evs'" by auto
        with True rm Inr e1 p1 "1.prems" show ?thesis
          by (subst read_memory_blocks_while.simps) (auto simp: events_emit)
      qed
    qed
  qed
qed


lemma emits_only_write_while:
  assumes "port_events P" and "P (Debug_executing CMD_WRITE_MEMORY)" and "\<And>x. P (cb x)"
  shows "emits_only P (write_memory_blocks_while a d cb l off)"
proof (rule emits_onlyI)
  fix s
  show "\<exists>evs. events (snd (write_memory_blocks_while a d cb l off s)) = events s @ evs
          \<and> list_all P evs"
    using assms(3)
  proof (induction a d cb l off s rule: write_memory_blocks_while.induct)
    case (1 a d cb l off s)
    show ?case
    proof (cases "l > WRITE_BLOCK_SIZE")
      case False
      then show ?thesis by (subst write_memory_blocks_while.simps) simp
    next
      case True
      let ?w = "write_memory (a + int off) (take WRITE_BLOCK_SIZE (drop off d)) s"
      obtain r s1 where wm: "?w = (r, s1)" by (cases ?w)
      from emits_onlyD [OF emits_only_write_memory [OF assms(1,2)],
          of "a + int off" "take WRITE_BLOCK_SIZE (drop off d)" s]
        wm obtain evs where e1: "events s1 = events s @ evs" and p1: "list_all P evs"
        by auto
      show ?thesis
      proof (cases r)
        case (Inl e)
        with True wm e1 p1 show ?thesis
          by (subst write_memory_blocks_while.simps) simp
      next
        case (Inr u)
        from "1.IH" [OF True wm [symmetric, unfolded Inr] refl "1.prems"] obtain evs' where
          "events (snd (write_memory_blocks_while a d cb (l - WRITE_BLOCK_SIZE)
              (off + WRITE_BLOCK_SIZE)
              (snd (emit (cb (Quotient (int (off + WRITE_BLOCK_SIZE)) (int (length d)))) s1)))) =
           events (snd (emit (cb (Quotient (int (off + WRITE_BLOCK_SIZE)) (int (length d)))) s1))
             @ evs'"
          and "list_all P evs'" by auto
        with True wm Inr e1 p1 "1.prems" show ?thesis
          by (subst write_memory_blocks_while.simps) (auto simp: events_emit)
      qed
    qed
  qed
qed

lemma emits_only_case_prod:
  "(\<And>a b. emits_only P (f a b)) \<Longrightarrow> emits_only P (case x of (a, b) \<Rightarrow> f a b)"
  by (cases x) simp

lemma emits_only_read_memory_blocks:
  assumes "port_events P" and "P (Debug_executing CMD_READ_MEMORY)" and "\<And>x. P (cb x)"
  shows "emits_only P (read_memory_blocks a n cb)"
  unfolding read_memory_blocks_def
  by (intro emits_only_bind emits_only_read_while emits_only_case_prod emits_only_if
      emits_only_read_memory emits_only_return emits_only_emit assms)

lemma emits_only_write_memory_blocks:
  assumes "port_events P" and "P (Debug_executing CMD_WRITE_MEMORY)" and "\<And>x. P (cb x)"
  shows "emits_only P (write_memory_blocks a d cb)"
  unfolding write_memory_blocks_def
  by (intro emits_only_bind emits_only_write_while emits_only_case_prod emits_only_if
      emits_only_write_memory emits_only_return emits_only_emit assms)

lemma emits_only_try_pass: "emits_only P m \<Longrightarrow> emits_only P (try_pass m)"
  by (auto simp: emits_only_def try_pass_def split: prod.splits sum.splits)
     (metis snd_conv)+

lemma emits_only_load_for_range:
  assumes "port_events P" and "P (Debug_executing CMD_GET)" and "P Debug_resynchronizing"
  shows "emits_only P (load_for_range n)"
proof (rule emits_onlyI)
  fix s
  show "\<exists>evs. events (snd (load_for_range n s)) = events s @ evs \<and> list_all P evs"
  proof (induction n arbitrary: s)
    case 0
    show ?case by simp
  next
    case (Suc n)
    obtain r s1 where g: "get s = (r, s1)" by (cases "get s")
    from emits_onlyD [OF emits_only_get [OF assms(1,2)], of s] g
    obtain evs where e1: "events s1 = events s @ evs" and p1: "list_all P evs" by auto
    show ?case
    proof (cases r)
      case (Inr v)
      with g e1 p1 show ?thesis by simp
    next
      case (Inl e)
      let ?m = "bind (emit Debug_resynchronizing) (\<lambda>_. synchronize True)"
      have "emits_only P ?m"
        by (intro emits_only_bind emits_only_emit emits_only_synchronize assms)
      from emits_onlyD [OF this, of s1]
      obtain evs2 where e2: "events (snd (?m s1)) = events s1 @ evs2"
        and p2: "list_all P evs2" by auto
      obtain r2 s2 where m: "?m s1 = (r2, s2)" by (cases "?m s1")
      show ?thesis
      proof (cases r2)
        case (Inl e')
        with g \<open>r = Inl e\<close> m e1 p1 e2 p2 show ?thesis by simp
      next
        case (Inr u)
        from Suc.IH [of s2] obtain evs3 where
          "events (snd (load_for_range n s2)) = events s2 @ evs3" and "list_all P evs3"
          by auto
        with g \<open>r = Inl e\<close> m Inr e1 p1 e2 p2 show ?thesis by simp
      qed
    qed
  qed
qed


section \<open>Frame primitives\<close>

lemma wait_for_ack_step:
  "wait_for_ack s =
     (case replies s of
        [] \<Rightarrow> (Inl STM32LoaderTimeoutException, s\<lparr>events := events s @ [Read 1]\<rparr>)
      | r # rs \<Rightarrow>
          (case r of
             [] \<Rightarrow> Inl STM32LoaderTimeoutException
           | x # _ \<Rightarrow>
               if x = NACK then Inl STM32LoaderNACKException
               else if x = ACK then Inr ()
               else Inl (STM32LoaderException (Invalid_response_while_waiting_for_ACK x)),
           s\<lparr>events := events s @ [Read 1], replies := rs\<rparr>))"
  by (simp add: wait_for_ack_def read_byte_def read_bytes_def io_read_def bind_def
      return_def raise_def Let_def split: list.splits)

text \<open>
  C5. The ACK wait makes exactly one read of one byte. If no byte arrives (the script is
  exhausted or the read returns nothing) it raises the timeout exception; on 0x1F it
  raises the NACK exception; on 0x79 it succeeds; on any other byte it raises the base
  exception with the byte in its message.
\<close>

theorem wait_for_ack_outcome:
  "wait_for_ack s =
     (case replies s of
        [] \<Rightarrow> (Inl STM32LoaderTimeoutException, s\<lparr>events := events s @ [Read 1]\<rparr>)
      | r # rs \<Rightarrow>
          (case r of
             [] \<Rightarrow> Inl STM32LoaderTimeoutException
           | x # _ \<Rightarrow>
               if x = 0x1F then Inl STM32LoaderNACKException
               else if x = 0x79 then Inr ()
               else Inl (STM32LoaderException (Invalid_response_while_waiting_for_ACK x)),
           s\<lparr>events := events s @ [Read 1], replies := rs\<rparr>))"
  by (simp add: wait_for_ack_def read_byte_def read_bytes_def io_read_def bind_def
      return_def raise_def Let_def ACK_def NACK_def split: list.splits)

lemma big_endian_digits:
  "16777216 * (A div 16777216) + 65536 * (A div 65536 mod 256) +
     A div 256 mod 256 * 256 + A mod 256 = (A::int)"
proof -
  define X where "X = A div 256"
  define Y where "Y = X div 256"
  define Z where "Z = Y div 256"
  have a: "A = 256 * X + A mod 256" unfolding X_def by simp
  have x: "X = 256 * Y + X mod 256" unfolding Y_def by simp
  have y: "Y = 256 * Z + Y mod 256" unfolding Z_def by simp
  have y': "A div 65536 = Y" unfolding Y_def X_def
    by (simp add: zdiv_zmult2_eq)
  have z': "A div 16777216 = Z" unfolding Z_def Y_def X_def
    by (simp add: zdiv_zmult2_eq)
  have "16777216 * Z + 65536 * (Y mod 256) + X mod 256 * 256 + A mod 256 = A"
    using a x y by linarith
  then show ?thesis by (simp add: y' z' X_def)
qed

text \<open>
  C8. For an address A in 0..2^32-1 the encoding is five bytes: four bytes whose
  big-endian value is A, and then the exclusive or of these four.
\<close>

theorem encode_address_roundtrip:
  "0 \<le> A \<Longrightarrow> A < 2 ^ 32 \<Longrightarrow>
   \<exists>b3 b2 b1 b0.
     encode_address_with_checksum A = Inr [b3, b2, b1, b0, b3 XOR b2 XOR b1 XOR b0] \<and>
     decode_address [b3, b2, b1, b0] = A"
  apply (simp add: encode_address_with_checksum_def decode_address_def Let_def
      uint_word_of_int drop_bit_eq_div)
  apply (simp add: take_bit_eq_mod xor.assoc big_endian_digits)
  done

theorem encode_address_roundtrip_witness:
  "(0::int) \<le> 0x08000000 \<and> (0x08000000::int) < 2 ^ 32 \<and>
   (\<exists>b3 b2 b1 b0.
     encode_address_with_checksum 0x08000000 = Inr [b3, b2, b1, b0, b3 XOR b2 XOR b1 XOR b0] \<and>
     decode_address [b3, b2, b1, b0] = 0x08000000)"
  using encode_address_roundtrip [of "0x08000000"] by simp

section \<open>Commands\<close>

lemma bind_wait_for_ack_ACK:
  "replies s = (0x79 # r) # rs \<Longrightarrow>
   bind wait_for_ack f s = f () (s\<lparr>events := events s @ [Read 1], replies := rs\<rparr>)"
  by (simp add: bind_def wait_for_ack_step ACK_def NACK_def)

text \<open>
  C3. For data whose length is a multiple of 4 in 1..256 and an address that can be
  encoded, once the device has acknowledged the command and the address,
  \<open>write_memory\<close> has sent the command and its complement, the encoded address, the byte
  \<open>len(data) - 1\<close>, the data and one checksum byte, the exclusive or of \<open>len(data) - 1\<close>
  with every data byte, in this order; what remains is one ACK wait, whose outcome is
  the outcome of the call.
\<close>

theorem write_memory_frame:
  assumes "0 < length data" and "length data \<le> 256" and "length data mod 4 = 0"
    and "encode_address_with_checksum start_address = Inr address_bytes"
    and "replies s = (0x79 # r1) # (0x79 # r2) # rs"
  shows "write_memory start_address data s =
     wait_for_ack
       (s\<lparr>replies := rs,
          events := events s @
            [Debug_executing 0x31, Write [0x31], Write [0xCE], Read 1,
             Write address_bytes, Read 1,
             Write [of_nat (length data - 1)], Write data,
             Write [foldl (\<lambda>a x. a XOR x) (of_nat (length data - 1)) data]]\<rparr>)"
  using assms
  by (simp add: write_memory_def generic_execute_and_confirm_def bind_emit bind_write_out
      bind_lift_Inr bind_wait_for_ack_ACK CMD_WRITE_MEMORY_def Let_def bind_assoc)

theorem write_memory_frame_witness:
  "0 < length [1, 2, 3, 4 :: u8] \<and> length [1, 2, 3, 4 :: u8] \<le> 256 \<and>
   length [1, 2, 3, 4 :: u8] mod 4 = 0 \<and>
   encode_address_with_checksum 0x08000000 = Inr [0x08, 0, 0, 0, 0x08] \<and>
   write_memory 0x08000000 [1, 2, 3, 4]
     \<lparr>synchronization_prefix = [], replies = [[0x79], [0x79], [0x79]], events = []\<rparr> =
   wait_for_ack
     \<lparr>synchronization_prefix = [], replies = [[0x79]],
      events = [Debug_executing 0x31, Write [0x31], Write [0xCE], Read 1,
                Write [0x08, 0, 0, 0, 0x08], Read 1,
                Write [3], Write [1, 2, 3, 4], Write [7]]\<rparr>"
proof -
  have enc: "encode_address_with_checksum 0x08000000 = Inr [0x08, 0, 0, 0, 0x08]"
    by code_simp
  show ?thesis
    using write_memory_frame [of "[1, 2, 3, 4]" "0x08000000" "[0x08, 0, 0, 0, 0x08]"
        "\<lparr>synchronization_prefix = [], replies = [[0x79], [0x79], [0x79]], events = []\<rparr>"
        "[]" "[]" "[[0x79]]"] enc
    by simp
qed

text \<open>
  C4, at a request for 300 bytes. The device acknowledges the command, the address and
  the length and sends 256 bytes. The length byte sent is 0xFF, a request for 256
  bytes, but the read that follows asks the port for 300 bytes, and the call raises the
  timeout exception instead of returning the 256 bytes.
\<close>

theorem read_memory_300:
  "read_memory 0x08000000 300
     \<lparr>synchronization_prefix = [],
      replies = [[0x79], [0x79], [0x79], replicate 256 0x42],
      events = []\<rparr> =
   (Inl STM32LoaderTimeoutException,
    \<lparr>synchronization_prefix = [], replies = [],
      events = [Debug_executing 0x11, Write [0x11], Write [0xEE], Read 1,
                Write [0x08, 0, 0, 0, 0x08], Read 1,
                Write [0xFF], Write [0x00], Read 1, Read 300]\<rparr>)"
  by code_simp

section \<open>Runs on a given reply script\<close>

text \<open>
  What each command does when the device gives the expected replies, as rewrite rules
  on an explicit loader state; with them a whole run of \<open>load\<close> is computed by
  simplification.
\<close>

lemma bind_return_right: "bind m return = m"
  by (rule ext) (simp add: bind_def return_def split: prod.splits sum.splits)

lemma bind_return_fun: "bind (return v) f = f v"
  by (rule ext) (simp add: bind_def return_def)

lemma bind_read_byte_got:
  "bind read_byte f \<lparr>synchronization_prefix = p, replies = (x # r) # rs, events = evs\<rparr> =
   f x \<lparr>synchronization_prefix = p, replies = rs, events = evs @ [Read 1]\<rparr>"
  by (simp add: read_byte_def read_bytes_def io_read_def bind_def return_def Let_def)

lemma bind_read_bytes_got:
  "length r = n \<Longrightarrow> 0 < n \<Longrightarrow>
   bind (read_bytes n) f \<lparr>synchronization_prefix = p, replies = r # rs, events = evs\<rparr> =
   f r \<lparr>synchronization_prefix = p, replies = rs, events = evs @ [Read n]\<rparr>"
  by (simp add: read_bytes_def io_read_def bind_def return_def Let_def)

lemma bind_wait_for_ack_got:
  "bind wait_for_ack f \<lparr>synchronization_prefix = p, replies = (0x79 # r) # rs, events = evs\<rparr> =
   f () \<lparr>synchronization_prefix = p, replies = rs, events = evs @ [Read 1]\<rparr>"
  by (simp add: bind_wait_for_ack_ACK)

lemma bind_generic_got:
  "bind (generic_execute_and_confirm cmd) f
     \<lparr>synchronization_prefix = p, replies = (0x79 # r) # rs, events = evs\<rparr> =
   f () \<lparr>synchronization_prefix = p, replies = rs,
          events = evs @ [Debug_executing cmd, Write [cmd], Write [cmd XOR 0xFF], Read 1]\<rparr>"
  by (simp add: generic_execute_and_confirm_def bind_assoc bind_emit bind_write_out
      bind_wait_for_ack_got)

lemma generic_nack:
  "generic_execute_and_confirm cmd
     \<lparr>synchronization_prefix = p, replies = (0x1F # r) # rs, events = evs\<rparr> =
   (Inl STM32LoaderNACKException,
    \<lparr>synchronization_prefix = p, replies = rs,
      events = evs @ [Debug_executing cmd, Write [cmd], Write [cmd XOR 0xFF], Read 1]\<rparr>)"
  by (simp add: generic_execute_and_confirm_def bind_assoc bind_emit bind_write_out
      wait_for_ack_step NACK_def)

lemma generic_timeout:
  "generic_execute_and_confirm cmd
     \<lparr>synchronization_prefix = p, replies = [], events = evs\<rparr> =
   (Inl STM32LoaderTimeoutException,
    \<lparr>synchronization_prefix = p, replies = [],
      events = evs @ [Debug_executing cmd, Write [cmd], Write [cmd XOR 0xFF], Read 1]\<rparr>)"
  by (simp add: generic_execute_and_confirm_def bind_assoc bind_emit bind_write_out
      wait_for_ack_step)

lemma get_nack:
  "get \<lparr>synchronization_prefix = p, replies = (0x1F # r) # rs, events = evs\<rparr> =
   (Inl STM32LoaderNACKException,
    \<lparr>synchronization_prefix = p, replies = rs,
      events = evs @ [Debug_executing 0, Write [0], Write [0xFF], Read 1]\<rparr>)"
  by (simp add: get_def bind_def generic_nack CMD_GET_def)

lemma bind_get_got:
  "length cs = unat n \<Longrightarrow> 0 < unat n \<Longrightarrow>
   bind get f \<lparr>synchronization_prefix = p,
     replies = (0x79 # r1) # (n # r2) # (v # r3) # cs # (0x79 # r5) # rs, events = evs\<rparr> =
   f \<lparr>version = v, commands = cs\<rparr>
     \<lparr>synchronization_prefix = p, replies = rs,
      events = evs @ [Debug_executing 0, Write [0], Write [0xFF], Read 1, Read 1, Read 1,
                      Read (unat n), Read 1]\<rparr>"
  by (simp add: get_def bind_assoc bind_generic_got bind_read_byte_got bind_read_bytes_got
      bind_wait_for_ack_got bind_return CMD_GET_def)

lemma bind_get_version_got:
  "bind get_version_and_protection_status f \<lparr>synchronization_prefix = p,
     replies = (0x79 # r1) # (v # r2) # (o1 # r3) # (o2 # r4) # (0x79 # r5) # rs,
     events = evs\<rparr> =
   f (v, [o1, o2])
     \<lparr>synchronization_prefix = p, replies = rs,
      events = evs @ [Debug_executing 1, Write [1], Write [0xFE], Read 1, Read 1, Read 1,
                      Read 1, Read 1]\<rparr>"
  by (simp add: get_version_and_protection_status_def bind_assoc bind_generic_got
      bind_read_byte_got bind_wait_for_ack_got bind_return
      CMD_GET_VERSION_AND_PROTECTION_STATUS_def)

lemma bind_get_id_got:
  "bind get_id f \<lparr>synchronization_prefix = p,
     replies = (0x79 # r1) # (1 # r2) # (msb # r3) # (lsb # r4) # (0x79 # r5) # rs,
     events = evs\<rparr> =
   f (push_bit 8 (uint msb) OR uint lsb)
     \<lparr>synchronization_prefix = p, replies = rs,
      events = evs @ [Debug_executing 2, Write [2], Write [0xFD], Read 1, Read 1, Read 1,
                      Read 1, Read 1]\<rparr>"
  by (simp add: get_id_def bind_assoc bind_generic_got
      bind_read_byte_got bind_wait_for_ack_got bind_return CMD_GET_ID_def)

lemma bind_synchronize_got:
  "bind (synchronize skip) f \<lparr>synchronization_prefix = p, replies = rs, events = evs\<rparr> =
   f () \<lparr>synchronization_prefix = p, replies = rs,
      events = evs @ Flush_input #
        (if p \<noteq> [] \<and> \<not> skip then [Write p, Sleep 1] else []) @
        [Write [0x7F], Sleep 1, Flush_input]\<rparr>"
  by (simp add: synchronize_def bind_def emit_def write_out_def return_def
      SYNCHRONIZATION_BYTE_def)

lemma bind_global_erase_got:
  "bind global_erase f \<lparr>synchronization_prefix = p,
     replies = (0x79 # r1) # (0x79 # r2) # rs, events = evs\<rparr> =
   f () \<lparr>synchronization_prefix = p, replies = rs,
      events = evs @ [Debug_executing 0x43, Write [0x43], Write [0xBC], Read 1,
                      Write [0xFF, 0x00], Read 1]\<rparr>"
  by (simp add: global_erase_def bind_assoc bind_generic_got bind_write_out
      bind_wait_for_ack_got CMD_ERASE_def)

lemma bind_extended_erase_got:
  "bind extended_erase f \<lparr>synchronization_prefix = p,
     replies = (0x79 # r1) # (0x79 # r2) # rs, events = evs\<rparr> =
   f () \<lparr>synchronization_prefix = p, replies = rs,
      events = evs @ [Debug_executing 0x44, Write [0x44], Write [0xBB], Read 1,
                      Write [0xFF, 0xFF, 0x00], Read 1]\<rparr>"
  by (simp add: extended_erase_def bind_assoc bind_generic_got bind_write_out
      bind_wait_for_ack_got CMD_EXTENDED_ERASE_def)


lemma bind_write_memory_got:
  "0 < length data \<Longrightarrow> length data \<le> 256 \<Longrightarrow> length data mod 4 = 0 \<Longrightarrow>
   bind (write_memory a data) f \<lparr>synchronization_prefix = p,
     replies = (0x79 # r1) # (0x79 # r2) # (0x79 # r3) # rs, events = evs\<rparr> =
   (case encode_address_with_checksum a of
      Inl e \<Rightarrow>
        (Inl e, \<lparr>synchronization_prefix = p, replies = (0x79 # r2) # (0x79 # r3) # rs,
           events = evs @ [Debug_executing 0x31, Write [0x31], Write [0xCE], Read 1]\<rparr>)
    | Inr ab \<Rightarrow>
        f () \<lparr>synchronization_prefix = p, replies = rs,
          events = evs @ [Debug_executing 0x31, Write [0x31], Write [0xCE], Read 1,
                      Write ab, Read 1, Write [of_nat (length data - 1)], Write data,
                      Write [foldl (\<lambda>a x. a XOR x) (of_nat (length data - 1)) data],
                      Read 1]\<rparr>)"
  by (simp add: write_memory_def bind_assoc bind_generic_got bind_write_out bind_lift_Inr
      bind_lift_Inl bind_wait_for_ack_got CMD_WRITE_MEMORY_def Let_def split: sum.splits)

lemma bind_read_memory_got:
  "0 < n \<Longrightarrow> n \<le> 256 \<Longrightarrow> int (length data) = n \<Longrightarrow>
   bind (read_memory a n) f \<lparr>synchronization_prefix = p,
     replies = (0x79 # r1) # (0x79 # r2) # (0x79 # r3) # data # rs, events = evs\<rparr> =
   (case encode_address_with_checksum a of
      Inl e \<Rightarrow>
        (Inl e, \<lparr>synchronization_prefix = p,
           replies = (0x79 # r2) # (0x79 # r3) # data # rs,
           events = evs @ [Debug_executing 0x11, Write [0x11], Write [0xEE], Read 1]\<rparr>)
    | Inr ab \<Rightarrow>
        f data \<lparr>synchronization_prefix = p, replies = rs,
          events = evs @ [Debug_executing 0x11, Write [0x11], Write [0xEE], Read 1,
                      Write ab, Read 1, Write [word_of_int (n - 1)],
                      Write [word_of_int ((n - 1) XOR 0xFF)], Read 1, Read (nat n)]\<rparr>)"
proof -
  assume n: "0 < n" "n \<le> 256" and len: "int (length data) = n"
  have "(n - 1) XOR 255 < 2 ^ 8"
    by (rule XOR_upper) (use n in auto)
  then have x: "0 \<le> (n - 1) XOR 255" "(n - 1) XOR 255 < 256"
    using n by auto
  have l: "length data = nat n" using len by simp
  show ?thesis
    using n x l
    by (simp add: read_memory_def bind_assoc bind_generic_got bind_write_out bind_lift_Inr
        bind_lift_Inl bind_wait_for_ack_got bind_read_bytes_got CMD_READ_MEMORY_def Let_def
        bchr_def split: sum.splits)
qed

lemma bind_go_got:
  "bind (go a) f \<lparr>synchronization_prefix = p,
     replies = (0x79 # r1) # (0x79 # r2) # rs, events = evs\<rparr> =
   (case encode_address_with_checksum a of
      Inl e \<Rightarrow>
        (Inl e, \<lparr>synchronization_prefix = p, replies = (0x79 # r2) # rs,
           events = evs @ [Debug_executing 0x21, Write [0x21], Write [0xDE], Read 1]\<rparr>)
    | Inr ab \<Rightarrow>
        f () \<lparr>synchronization_prefix = p, replies = rs,
          events = evs @ [Debug_executing 0x21, Write [0x21], Write [0xDE], Read 1,
                      Write ab, Read 1]\<rparr>)"
  by (simp add: go_def bind_assoc bind_generic_got bind_write_out bind_lift_Inr
      bind_lift_Inl bind_wait_for_ack_got CMD_GO_def split: sum.splits)

lemma write_while_done:
  "l \<le> 256 \<Longrightarrow> write_memory_blocks_while a d cb l off = return (l, off)"
  by (rule ext) (simp add: write_memory_blocks_while.simps WRITE_BLOCK_SIZE_def return_def)

lemma read_while_done:
  "l \<le> 256 \<Longrightarrow> read_memory_blocks_while a ol cb l off out = return (l, off, out)"
  by (rule ext) (simp add: read_memory_blocks_while.simps READ_BLOCK_SIZE_def return_def)

lemma bind_write_memory_blocks_one:
  "0 < length data \<Longrightarrow> length data \<le> 256 \<Longrightarrow>
   bind (write_memory_blocks a data cb) f s =
   bind (write_memory a data) (\<lambda>_. bind (emit (cb One_point_zero)) f) s"
  by (simp add: write_memory_blocks_def write_while_done bind_assoc bind_return_fun)

lemma bind_read_memory_blocks_one:
  "0 < n \<Longrightarrow> n \<le> 256 \<Longrightarrow>
   bind (read_memory_blocks a n cb) f s =
   bind (read_memory a n) (\<lambda>chunk. bind (emit (cb One_point_zero)) (\<lambda>_. f chunk)) s"
  by (simp add: read_memory_blocks_def read_while_done bind_assoc bind_return_fun)

lemma encode_default: "encode_address_with_checksum 0x08000000 = Inr [0x08, 0, 0, 0, 0x08]"
  by code_simp

lemma bind_Pair_Inr: "bind (Pair (Inr v)) f = f v"
  by (rule ext) (simp add: bind_def)

lemma bind_Pair_Inl: "bind (Pair (Inl e)) f = Pair (Inl e)"
  by (rule ext) (simp add: bind_def)

lemma synchronize_ok: "fst (synchronize skip s) = Inr ()"
  by (simp add: synchronize_def bind_def emit_def write_out_def return_def)

lemma bind_try_pass: "bind (try_pass m) f s = f () (snd (m s))"
  by (simp add: bind_def try_pass_def split: prod.splits sum.splits)

lemma bind_load_for_range_0: "bind (load_for_range 0) f s = f () s"
  by (simp add: bind_def)

lemma bind_load_for_range_Suc:
  "bind (load_for_range (Suc n)) f s =
     (case get s of
        (Inr _, s') \<Rightarrow> f () s'
      | (Inl _, s') \<Rightarrow> bind (load_for_range n) f (resynchronize s'))"
proof (cases "get s")
  case (Pair r s1)
  show ?thesis
  proof (cases r)
    case (Inr v)
    with Pair show ?thesis by (simp add: bind_def)
  next
    case (Inl e)
    let ?m = "bind (emit Debug_resynchronizing) (\<lambda>_. synchronize True)"
    have "fst (?m s1) = Inr ()"
      by (simp add: bind_emit synchronize_ok)
    then have m: "?m s1 = (Inr (), resynchronize s1)"
      by (simp add: resynchronize_def prod_eq_iff)
    with Pair Inl show ?thesis by (simp add: bind_def)
  qed
qed

lemma bind_load_for_range_3:
  "bind (load_for_range 3) f s =
     (case get s of
        (Inr _, a1) \<Rightarrow> f () a1
      | (Inl _, a1) \<Rightarrow>
          (case get (resynchronize a1) of
             (Inr _, a2) \<Rightarrow> f () a2
           | (Inl _, a2) \<Rightarrow>
               (case get (resynchronize a2) of
                  (Inr _, a3) \<Rightarrow> f () a3
                | (Inl _, a3) \<Rightarrow> f () (resynchronize a3))))"
  by (simp add: numeral_3_eq_3 bind_load_for_range_Suc bind_load_for_range_0
      split: prod.splits sum.splits)

lemma snd_synchronize:
  "snd (synchronize skip \<lparr>synchronization_prefix = p, replies = rs, events = evs\<rparr>) =
   \<lparr>synchronization_prefix = p, replies = rs,
      events = evs @ Flush_input #
        (if p \<noteq> [] \<and> \<not> skip then [Write p, Sleep 1] else []) @
        [Write [0x7F], Sleep 1, Flush_input]\<rparr>"
  by (simp add: synchronize_def bind_def emit_def write_out_def return_def
      SYNCHRONIZATION_BYTE_def)

lemmas got_return =
  bind_get_got [where f = return, unfolded bind_return_right]
  bind_synchronize_got [where f = return, unfolded bind_return_right]
  bind_go_got [where f = return, unfolded bind_return_right]
  bind_global_erase_got [where f = return, unfolded bind_return_right]
  bind_extended_erase_got [where f = return, unfolded bind_return_right]

lemmas run_simps =
  load_def load_try_def load_readback_def load_configure_def load_erase_def
  load_unprotect_def load_general_info_def load_synchronization_def try_pass_def
  new_loader_def close_def load_address_or_default_def DEFAULT_FLASH_ADDRESS_def
  resynchronize_def
  bind_assoc bind_emit bind_return_fun bind_raise bind_lift_Inr bind_lift_Inl
  bind_get_got bind_get_version_got bind_get_id_got bind_synchronize_got
  bind_global_erase_got bind_extended_erase_got bind_go_got
  bind_write_memory_got bind_read_memory_got
  bind_write_memory_blocks_one bind_read_memory_blocks_one
  got_return get_nack generic_nack generic_timeout
  return_def raise_def encode_default CMD_ERASE_def bind_Pair_Inr bind_Pair_Inl
  bind_try_pass bind_load_for_range_3 snd_synchronize

lemma pad1: "pad_image [0x42] = [0x42, 0xFF, 0xFF, 0xFF]"
  by (simp add: pad_image.simps)

section \<open>The stages of \<open>load\<close>\<close>

lemma log_events_Progress: "log_events P \<Longrightarrow> P (Progress_report st x)"
  by (simp add: log_events_def)

lemma emits_only_load_synchronization:
  assumes "port_events P" and "P (Debug_executing CMD_GET)" and "P Debug_resynchronizing"
  shows "emits_only P load_synchronization"
  unfolding load_synchronization_def
  by (intro emits_only_bind emits_only_try_pass emits_only_synchronize
      emits_only_load_for_range assms)

lemma emits_only_load_general_info:
  assumes "port_events P" and "log_events P" and "P (Debug_executing CMD_GET)"
    and "P (Debug_executing CMD_GET_VERSION_AND_PROTECTION_STATUS)"
    and "P (Debug_executing CMD_GET_ID)"
  shows "emits_only P load_general_info"
  unfolding load_general_info_def
  by (intro emits_only_bind emits_only_get emits_only_get_version emits_only_get_id
      emits_only_case_prod emits_only_emit emits_only_return assms)
     (use assms(2) in \<open>auto simp: log_events_def\<close>)

lemma emits_only_load_unprotect:
  assumes "port_events P" and "log_events P"
    and "P (Debug_executing CMD_READOUT_UNPROTECT)"
    and "P (Debug_executing CMD_WRITE_UNPROTECT)"
  shows "emits_only P (load_unprotect ro wu)"
  unfolding load_unprotect_def
  by (intro emits_only_bind emits_only_if emits_only_readout_unprotect
      emits_only_write_unprotect emits_only_synchronize emits_only_emit
      emits_only_return assms)
     (use assms(2) in \<open>auto simp: log_events_def\<close>)

lemma emits_only_load_configure:
  assumes "port_events P" and "log_events P" and "P (Debug_executing CMD_GET)"
    and "P (Debug_executing CMD_GET_VERSION_AND_PROTECTION_STATUS)"
    and "P (Debug_executing CMD_GET_ID)"
    and "P (Debug_executing CMD_READOUT_UNPROTECT)"
    and "P (Debug_executing CMD_WRITE_UNPROTECT)"
  shows "emits_only P (load_configure ro wu)"
  unfolding load_configure_def
  by (intro emits_only_bind emits_only_load_synchronization emits_only_load_general_info
      emits_only_load_unprotect emits_only_return assms)
     (use assms(2) in \<open>auto simp: log_events_def\<close>)

lemma emits_only_load_erase:
  assumes "port_events P" and "P (Debug_executing CMD_ERASE)"
    and "P (Debug_executing CMD_EXTENDED_ERASE)"
  shows "emits_only P (load_erase var_get)"
  unfolding load_erase_def
  by (intro emits_only_if emits_only_global_erase emits_only_extended_erase assms)

lemma load_try_stages:
  "load_try ro wu go_arg load_address binary_image =
     bind (load_configure ro wu) (\<lambda>var_get.
     bind (load_erase var_get) (\<lambda>_. load_transfer go_arg load_address binary_image))"
  by (simp add: load_try_def load_readback_def load_transfer_def bind_assoc)

lemma emits_only_load_readback:
  assumes "port_events P" and "log_events P" and "P (Debug_executing CMD_GET)"
    and "P (Debug_executing CMD_GET_VERSION_AND_PROTECTION_STATUS)"
    and "P (Debug_executing CMD_GET_ID)"
    and "P (Debug_executing CMD_READOUT_UNPROTECT)"
    and "P (Debug_executing CMD_WRITE_UNPROTECT)"
    and "P (Debug_executing CMD_ERASE)"
    and "P (Debug_executing CMD_EXTENDED_ERASE)"
    and "P (Debug_executing CMD_WRITE_MEMORY)"
    and "P (Debug_executing CMD_READ_MEMORY)"
  shows "emits_only P (load_readback ro wu load_address binary_image)"
  unfolding load_readback_def
  by (intro emits_only_bind emits_only_load_configure emits_only_load_erase
      emits_only_write_memory_blocks emits_only_read_memory_blocks assms
      log_events_Progress)


lemma executed_append: "executed (xs @ ys) = executed xs @ executed ys"
  by (induction xs rule: executed.induct) simp_all

lemma in_executed: "c \<in> set (executed evs) \<longleftrightarrow> Debug_executing c \<in> set evs"
  by (induction evs rule: executed.induct) auto


section \<open>Block transfer\<close>

text \<open>
  C10. Writing no data succeeds, leaves the reply script untouched and adds one event
  to the trace: the call of the progress callback with 1.0.
\<close>

theorem write_memory_blocks_empty:
  "write_memory_blocks start_address [] progress_report_callback s =
     (Inr (), s\<lparr>events := events s @ [progress_report_callback One_point_zero]\<rparr>)"
  by (simp add: write_memory_blocks_def write_memory_blocks_while.simps bind_def return_def
      emit_def WRITE_BLOCK_SIZE_def)

section \<open>The session\<close>

lemma pad_step:
  assumes "n mod 4 \<noteq> (0::nat)"
  shows "(4 - n mod 4) mod 4 = Suc ((4 - Suc n mod 4) mod 4)"
proof -
  have "n mod 4 < 4" by simp
  with assms consider "n mod 4 = 1" | "n mod 4 = 2" | "n mod 4 = 3" by linarith
  then show ?thesis
    by cases (simp_all add: mod_Suc)
qed

lemma pad_image_eq: "pad_image img = img @ replicate ((4 - length img mod 4) mod 4) 0xFF"
proof (induction img rule: pad_image.induct)
  case (1 img)
  show ?case
  proof (cases "length img mod 4 = 0")
    case True
    then show ?thesis by (subst pad_image.simps) simp
  next
    case False
    from False 1 pad_step [OF False] show ?thesis
      by (subst pad_image.simps) (simp add: replicate_Suc[symmetric] del: replicate_Suc)
  qed
qed

lemma length_pad_image: "length (pad_image img) mod 4 = 0"
proof -
  let ?n = "length img" and ?k = "(4 - length img mod 4) mod 4"
  have "?n mod 4 < 4" by simp
  then consider "?n mod 4 = 0" | "?n mod 4 = 1" | "?n mod 4 = 2" | "?n mod 4 = 3"
    by linarith
  then have "(?n mod 4 + ?k) mod 4 = 0"
    by cases simp_all
  then have "(?n + ?k) mod 4 = 0"
    by (simp add: mod_add_left_eq)
  then show ?thesis by (simp add: pad_image_eq)
qed


lemma executed_close: "executed (events (close s)) = executed (events s)"
  by (simp add: close_def executed_append)

lemma executed_new_loader: "executed (events (new_loader port sp)) = []"
  by (simp add: new_loader_def)

text \<open>
  C2. When everything up to the read-back has succeeded and the bytes read back differ
  from the padded image, \<open>load\<close> raises the exception "Verification failed"; after the
  read-back nothing happens but the \<open>close\<close>, and the GO command is not executed
  anywhere in the run.
\<close>

theorem load_verification_failure:
  assumes "fst (load_readback ro wu (load_address_or_default la) (pad_image img)
                  (new_loader port sp)) = Inr readback"
    and "readback \<noteq> pad_image img"
  shows "load port img la ro wu go_arg sp =
           (Inl (STM32LoaderException Verification_failed),
            close (snd (load_readback ro wu (load_address_or_default la) (pad_image img)
                          (new_loader port sp)))) \<and>
         CMD_GO \<notin> set (executed (events (snd (load port img la ro wu go_arg sp))))"
proof -
  let ?m = "load_readback ro wu (load_address_or_default la) (pad_image img)"
  let ?s0 = "new_loader port sp"
  let ?P = "\<lambda>e. e \<noteq> Debug_executing CMD_GO"
  obtain s where lr: "?m ?s0 = (Inr readback, s)"
    using assms(1) by (cases "?m ?s0") simp
  have l: "load port img la ro wu go_arg sp =
      (Inl (STM32LoaderException Verification_failed), close s)"
    using assms(2) lr by (simp add: load_def load_try_def bind_def raise_def)
  have "emits_only ?P ?m"
    by (rule emits_only_load_readback)
       (simp_all add: port_events_def log_events_def CMD_GO_def CMD_GET_def
         CMD_GET_VERSION_AND_PROTECTION_STATUS_def CMD_GET_ID_def CMD_READOUT_UNPROTECT_def
         CMD_WRITE_UNPROTECT_def CMD_ERASE_def CMD_EXTENDED_ERASE_def CMD_WRITE_MEMORY_def
         CMD_READ_MEMORY_def)
  from emits_onlyD [OF this, of ?s0] lr obtain evs where
    e: "events s = events ?s0 @ evs" and p: "list_all ?P evs" by auto
  have "CMD_GO \<notin> set (executed evs)"
    using p by (auto simp: in_executed list_all_iff)
  then have "CMD_GO \<notin> set (executed (events (close s)))"
    by (simp add: executed_close e executed_append executed_new_loader)
  with l lr show ?thesis by simp
qed

theorem load_verification_failure_witness:
  "fst (load_readback False False (load_address_or_default None) (pad_image [0x42])
          (new_loader (good_device [0x42, 0xFF, 0xFF, 0x00]) None)) = Inr [0x42, 0xFF, 0xFF, 0x00] \<and>
   [0x42, 0xFF, 0xFF, 0x00] \<noteq> pad_image [0x42] \<and>
   load (good_device [0x42, 0xFF, 0xFF, 0x00]) [0x42] None False False True None =
     (Inl (STM32LoaderException Verification_failed),
      close (snd (load_readback False False (load_address_or_default None) (pad_image [0x42])
                    (new_loader (good_device [0x42, 0xFF, 0xFF, 0x00]) None)))) \<and>
   CMD_GO \<notin> set (executed (events (snd
     (load (good_device [0x42, 0xFF, 0xFF, 0x00]) [0x42] None False False True None))))"
proof -
  have r: "fst (load_readback False False (load_address_or_default None) (pad_image [0x42])
          (new_loader (good_device [0x42, 0xFF, 0xFF, 0x00]) None)) = Inr [0x42, 0xFF, 0xFF, 0x00]"
    by (simp add: pad1 good_device_def run_simps
        bind_read_memory_blocks_one [where f = return, unfolded bind_return_right])
  have n: "[0x42, 0xFF, 0xFF, 0x00] \<noteq> pad_image [0x42]"
    by (simp add: pad1)
  note t = load_verification_failure [OF r n, of True]
  from r n t [THEN conjunct1] t [THEN conjunct2] show ?thesis
    by (intro conjI) assumption+
qed

lemma events_bind_emit:
  assumes "emits_only P m"
  shows "\<exists>evs. events (snd (bind (emit ev) (\<lambda>_. m) s)) = events s @ ev # evs \<and> list_all P evs"
proof -
  from emits_onlyD [OF assms, of "s\<lparr>events := events s @ [ev]\<rparr>"]
  show ?thesis by (auto simp: bind_emit)
qed




lemma resynchronize_ok:
  "bind (emit Debug_resynchronizing) (\<lambda>_. synchronize True) s = (Inr (), resynchronize s)"
proof -
  have "fst (bind (emit Debug_resynchronizing) (\<lambda>_. synchronize True) s) = Inr ()"
    by (simp add: bind_emit synchronize_ok)
  then show ?thesis by (simp add: resynchronize_def prod_eq_iff)
qed

lemma load_for_range_Suc:
  "load_for_range (Suc n) s =
     (case get s of
        (Inr _, a) \<Rightarrow> (Inr (), a)
      | (Inl _, a) \<Rightarrow> load_for_range n (resynchronize a))"
  by (simp add: resynchronize_ok split: prod.splits sum.splits)

lemma load_for_range_ok: "fst (load_for_range n s) = Inr ()"
proof (induction n arbitrary: s)
  case 0
  show ?case by simp
next
  case (Suc n)
  show ?case
    unfolding load_for_range_Suc
    by (simp add: Suc.IH split: prod.splits sum.splits)
qed

lemma load_synchronization_eq:
  "load_synchronization s = load_for_range 3 (snd (synchronize False s))"
  by (simp add: load_synchronization_def bind_try_pass)

lemma load_synchronization_ok: "fst (load_synchronization s) = Inr ()"
  by (simp add: load_synchronization_eq load_for_range_ok)

lemma resynchronize_events:
  "resynchronize s =
     s\<lparr>events := events s @
         [Debug_resynchronizing, Flush_input, Write [0x7F], Sleep 1, Flush_input]\<rparr>"
  by (simp add: resynchronize_def synchronize_def bind_def emit_def write_out_def return_def
      SYNCHRONIZATION_BYTE_def)

lemma load_for_range_3:
  "load_for_range 3 s =
     (case get s of
        (Inr _, a1) \<Rightarrow> (Inr (), a1)
      | (Inl _, a1) \<Rightarrow>
          (case get (resynchronize a1) of
             (Inr _, a2) \<Rightarrow> (Inr (), a2)
           | (Inl _, a2) \<Rightarrow>
               (case get (resynchronize a2) of
                  (Inr _, a3) \<Rightarrow> (Inr (), a3)
                | (Inl _, a3) \<Rightarrow> (Inr (), resynchronize a3))))"
proof -
  have "load_for_range 3 s = load_for_range (Suc (Suc (Suc 0))) s"
    by (simp only: numeral_3_eq_3)
  also have "\<dots> = (case get s of
        (Inr _, a1) \<Rightarrow> (Inr (), a1)
      | (Inl _, a1) \<Rightarrow>
          (case get (resynchronize a1) of
             (Inr _, a2) \<Rightarrow> (Inr (), a2)
           | (Inl _, a2) \<Rightarrow>
               (case get (resynchronize a2) of
                  (Inr _, a3) \<Rightarrow> (Inr (), a3)
                | (Inl _, a3) \<Rightarrow> (Inr (), resynchronize a3))))"
    by (simp only: load_for_range_Suc load_for_range.simps(1))
  finally show ?thesis .
qed
lemma get_failure_propagates:
  assumes f: "fst (get (snd (load_synchronization (new_loader port sp)))) = Inl e"
  shows "load port img la ro wu go_arg sp =
      (Inl e, close (snd (get (snd (load_synchronization (new_loader port sp))))))"
proof -
  let ?s0 = "new_loader port sp"
  define s1 where "s1 = snd (load_synchronization ?s0)"
  define s2 where "s2 = snd (get s1)"
  have sy: "load_synchronization ?s0 = (Inr (), s1)"
    using load_synchronization_ok [of ?s0] by (simp add: prod_eq_iff s1_def)
  have g: "get s1 = (Inl e, s2)"
    using f by (simp add: prod_eq_iff s1_def s2_def)
  have "load_general_info s1 = (Inl e, s2)"
    by (simp add: load_general_info_def bind_def g)
  then have "load_configure ro wu ?s0 = (Inl e, s2)"
    by (simp add: load_configure_def bind_def sy)
  then have "load_try ro wu go_arg (load_address_or_default la) (pad_image img) ?s0 =
      (Inl e, s2)"
    by (simp add: load_try_stages bind_def)
  then show ?thesis
    by (simp add: load_def s1_def s2_def)
qed
lemma only_get_executed:
  "set (executed (events (snd (get (snd (load_synchronization (new_loader port sp))))))) \<subseteq> {CMD_GET}"
proof -
  let ?s0 = "new_loader port sp"
  let ?s1 = "snd (load_synchronization ?s0)"
  let ?s2 = "snd (get ?s1)"
  let ?P = "\<lambda>ev. \<forall>c. ev = Debug_executing c \<longrightarrow> c = CMD_GET"
  have pe: "port_events ?P" by (simp add: port_events_def)
  have c: "?P (Debug_executing CMD_GET)" and d: "?P Debug_resynchronizing" by simp_all
  have "emits_only ?P load_synchronization"
    by (rule emits_only_load_synchronization [of ?P, OF pe c d])
  from emits_onlyD [OF this, of ?s0] obtain evs1 where
    e1: "events ?s1 = events ?s0 @ evs1" and p1: "list_all ?P evs1" by blast
  have "emits_only ?P get"
    by (rule emits_only_get [of ?P, OF pe c])
  from emits_onlyD [OF this, of ?s1] obtain evs2 where
    e2: "events ?s2 = events ?s1 @ evs2" and p2: "list_all ?P evs2" by blast
  have "set (executed evs1) \<subseteq> {CMD_GET}" "set (executed evs2) \<subseteq> {CMD_GET}"
    using p1 p2 by (auto simp: in_executed list_all_iff)
  then show ?thesis
    by (simp add: e2 e1 executed_append executed_new_loader)
qed

text \<open>
  C1, as the code has it. The synchronization phase is the first \<open>synchronize\<close> and the
  loop; the loop makes at most three attempts of \<open>get\<close>, stops at the first that
  succeeds, follows each failed one by the log line and \<open>synchronize(skip_prefix=True)\<close>
  (which sends the synchronization byte alone), and never raises: the failure of an
  attempt, the third included, is dropped. The \<open>get\<close> of line 283 comes next; when it
  fails, its exception is the result of \<open>load\<close>, nothing follows but the \<open>close\<close>,
  and no command other than GET has been executed in the run.
\<close>

theorem load_synchronization_retries:
  "load_synchronization s = load_for_range 3 (snd (synchronize False s)) \<and>
   load_for_range 3 s =
     (case get s of
        (Inr _, a1) \<Rightarrow> (Inr (), a1)
      | (Inl _, a1) \<Rightarrow>
          (case get (resynchronize a1) of
             (Inr _, a2) \<Rightarrow> (Inr (), a2)
           | (Inl _, a2) \<Rightarrow>
               (case get (resynchronize a2) of
                  (Inr _, a3) \<Rightarrow> (Inr (), a3)
                | (Inl _, a3) \<Rightarrow> (Inr (), resynchronize a3)))) \<and>
   resynchronize s =
     s\<lparr>events := events s @
         [Debug_resynchronizing, Flush_input, Write [0x7F], Sleep 1, Flush_input]\<rparr> \<and>
   (fst (get (snd (load_synchronization (new_loader port sp)))) = Inl e \<longrightarrow>
    load port img la ro wu go_arg sp =
      (Inl e, close (snd (get (snd (load_synchronization (new_loader port sp)))))) \<and>
    set (executed (events (snd (load port img la ro wu go_arg sp)))) \<subseteq> {CMD_GET})"
proof (intro conjI impI)
  show "load_synchronization s = load_for_range 3 (snd (synchronize False s))"
    by (rule load_synchronization_eq)
  show "load_for_range 3 s =
     (case get s of
        (Inr _, a1) \<Rightarrow> (Inr (), a1)
      | (Inl _, a1) \<Rightarrow>
          (case get (resynchronize a1) of
             (Inr _, a2) \<Rightarrow> (Inr (), a2)
           | (Inl _, a2) \<Rightarrow>
               (case get (resynchronize a2) of
                  (Inr _, a3) \<Rightarrow> (Inr (), a3)
                | (Inl _, a3) \<Rightarrow> (Inr (), resynchronize a3))))"
    by (rule load_for_range_3)
  show "resynchronize s =
     s\<lparr>events := events s @
         [Debug_resynchronizing, Flush_input, Write [0x7F], Sleep 1, Flush_input]\<rparr>"
    by (rule resynchronize_events)
next
  assume f: "fst (get (snd (load_synchronization (new_loader port sp)))) = Inl e"
  then show l: "load port img la ro wu go_arg sp =
      (Inl e, close (snd (get (snd (load_synchronization (new_loader port sp))))))"
    by (rule get_failure_propagates)
  show "set (executed (events (snd (load port img la ro wu go_arg sp)))) \<subseteq> {CMD_GET}"
    unfolding l using only_get_executed [of port sp] by (simp add: executed_close)
qed

theorem load_synchronization_retries_witness:
  "fst (get (snd (load_synchronization
          (new_loader [[0x1F], [0x1F], [0x1F], [0x1F]] None)))) = Inl STM32LoaderNACKException \<and>
   load [[0x1F], [0x1F], [0x1F], [0x1F]] [0x42] None False False True None =
     (Inl STM32LoaderNACKException,
      close (snd (get (snd (load_synchronization
                (new_loader [[0x1F], [0x1F], [0x1F], [0x1F]] None)))))) \<and>
   set (executed (events (snd
     (load [[0x1F], [0x1F], [0x1F], [0x1F]] [0x42] None False False True None)))) \<subseteq> {CMD_GET}"
proof -
  have f: "fst (get (snd (load_synchronization
          (new_loader [[0x1F], [0x1F], [0x1F], [0x1F]] None)))) = Inl STM32LoaderNACKException"
    by (simp add: load_synchronization_eq load_for_range_3 run_simps)
  note t = load_synchronization_retries [of "new_loader [] None" "[[0x1F], [0x1F], [0x1F], [0x1F]]" None
      STM32LoaderNACKException "[0x42]" None False False True,
      THEN conjunct2, THEN conjunct2, THEN conjunct2, rule_format, OF f]
  from f t [THEN conjunct1] t [THEN conjunct2] show ?thesis
    by (intro conjI) assumption+
qed

text \<open>
  The device \<open>nack_device\<close> rejects three GET commands and answers from the fourth on.
  All three attempts of the loop fail (three "Resynchronizing" lines), and \<open>load\<close>
  succeeds: it goes on to erase, write, read back and start the image.
\<close>

theorem load_synchronization_counterexample:
  "count_list (events (snd (load nack_device [1, 2, 3, 4] None False False True None)))
     Debug_resynchronizing = 3 \<and>
   fst (load nack_device [1, 2, 3, 4] None False False True None) = Inr () \<and>
   executed (events (snd (load nack_device [1, 2, 3, 4] None False False True None))) =
     [0x00, 0x00, 0x00, 0x00, 0x01, 0x02, 0x43, 0x31, 0x11, 0x21]"
  by (simp add: pad_image.simps nack_device_def good_device_def run_simps)

section \<open>Progress reports of the block transfers\<close>

lemma filter_is_step_plain: "list_all plain evs \<Longrightarrow> filter is_step evs = []"
  by (induction evs) (auto simp: plain_def is_step_def split: event.splits)

lemma port_events_plain: "port_events plain"
  by (simp add: port_events_def plain_def)

lemma read_memory_steps:
  "filter is_step (events (snd (read_memory a n s))) =
   filter is_step (events s) @ [Debug_executing CMD_READ_MEMORY]"
proof -
  have w: "\<And>d. emits_only plain (write_out d)" and k: "emits_only plain wait_for_ack"
    and r: "\<And>n. emits_only plain (read_bytes n)"
    by (auto intro!: emits_only_write_out emits_only_wait_for_ack emits_only_read_bytes
        simp: plain_def)
  have "\<exists>evs. events (snd (read_memory a n s)) =
      events s @ Debug_executing CMD_READ_MEMORY # evs \<and> list_all plain evs"
    unfolding read_memory_def generic_execute_and_confirm_def bind_assoc Let_def
    by (intro events_bind_emit emits_only_bind emits_only_lift w k r)
  then show ?thesis
    by (auto simp: filter_is_step_plain is_step_def)
qed

lemma write_memory_steps:
  assumes "write_memory a d s = (Inr u, s')"
  shows "filter is_step (events s') =
         filter is_step (events s) @ [Debug_executing CMD_WRITE_MEMORY]"
proof -
  have w: "\<And>d. emits_only plain (write_out d)" and k: "emits_only plain wait_for_ack"
    by (auto intro!: emits_only_write_out emits_only_wait_for_ack simp: plain_def)
  let ?rest = "bind (emit (Debug_executing CMD_WRITE_MEMORY)) (\<lambda>_.
     bind (write_out [CMD_WRITE_MEMORY]) (\<lambda>_.
     bind (write_out [CMD_WRITE_MEMORY XOR 0xFF]) (\<lambda>_.
     bind wait_for_ack (\<lambda>_.
     bind (lift (encode_address_with_checksum a)) (\<lambda>address_bytes.
     bind (write_out address_bytes) (\<lambda>_.
     bind wait_for_ack (\<lambda>_.
     bind (write_out [of_nat (length d - 1)]) (\<lambda>_.
     bind (write_out d) (\<lambda>_.
     bind (write_out [foldl (\<lambda>a x. a XOR x) (of_nat (length d - 1)) d]) (\<lambda>_.
     wait_for_ack))))))))))"
  have valid: "\<not> (length d > 256 \<or> length d = 0 \<or> length d mod 4 \<noteq> 0)"
    using assms by (auto simp: write_memory_def raise_def split: if_splits)
  then have eq: "write_memory a d = ?rest"
    by (simp add: write_memory_def generic_execute_and_confirm_def bind_assoc Let_def)
  have "\<exists>evs. events (snd (?rest s)) =
      events s @ Debug_executing CMD_WRITE_MEMORY # evs \<and> list_all plain evs"
    by (intro events_bind_emit emits_only_bind emits_only_lift w k)
  with assms eq show ?thesis
    by (auto simp: filter_is_step_plain is_step_def)
qed

lemma map_upt_shift:
  "map f [Suc 0..<Suc (Suc m)] = f (Suc 0) # map (\<lambda>k. f (Suc k)) [Suc 0..<Suc m]"
proof -
  have "[Suc 0..<Suc (Suc m)] = Suc 0 # [Suc (Suc 0)..<Suc (Suc m)]"
    by (rule upt_conv_Cons) simp
  also have "[Suc (Suc 0)..<Suc (Suc m)] = map Suc [Suc 0..<Suc m]"
    by (simp only: map_Suc_upt)
  finally show ?thesis by (simp add: comp_def del: upt_Suc)
qed

lemma div_256_step: "256 < l \<Longrightarrow> (l - 1) div 256 = Suc ((l - 257) div (256::nat))"
proof -
  assume "256 < l"
  then have "l - 1 = (l - 257) + 256" by simp
  then show ?thesis by (simp only: div_add_self2)
qed

lemma write_while_steps:
  assumes "write_memory_blocks_while a d cb l off s = (Inr (l', off'), s')"
    and "\<And>x. is_step (cb x)"
  shows "l' = l - 256 * ((l - 1) div 256) \<and> off' = off + 256 * ((l - 1) div 256) \<and>
     filter is_step (events s') = filter is_step (events s) @
       concat (map (\<lambda>k. [Debug_executing CMD_WRITE_MEMORY,
                            cb (Quotient (int (off + 256 * k)) (int (length d)))])
                 [1..<Suc ((l - 1) div 256)])"
  using assms
proof (induction a d cb l off s rule: write_memory_blocks_while.induct)
  case (1 a d cb l off s)
  show ?case
  proof (cases "l > 256")
    case False
    then have "(l - 1) div 256 = 0" by simp
    moreover from False "1.prems"(1) have "l' = l" "off' = off" "s' = s"
      by (simp_all add: write_memory_blocks_while.simps [of a d cb l off s] WRITE_BLOCK_SIZE_def)
    ultimately show ?thesis by simp
  next
    case True
    let ?w = "write_memory (a + int off) (take 256 (drop off d)) s"
    let ?q = "cb (Quotient (int (off + 256)) (int (length d)))"
    obtain r s1 where w: "?w = (r, s1)" by (cases ?w)
    from True "1.prems"(1) w obtain u where r: "r = Inr u"
      by (cases r)
         (simp_all add: write_memory_blocks_while.simps [of a d cb l off s] WRITE_BLOCK_SIZE_def)
    from True "1.prems"(1) w r
    have rec: "write_memory_blocks_while a d cb (l - 256) (off + 256) (snd (emit ?q s1)) =
        (Inr (l', off'), s')"
      by (simp add: write_memory_blocks_while.simps [of a d cb l off s] WRITE_BLOCK_SIZE_def)
    have t: "WRITE_BLOCK_SIZE < l" using True by (simp add: WRITE_BLOCK_SIZE_def)
    note ih = "1.IH" [OF t, unfolded WRITE_BLOCK_SIZE_def, OF w [symmetric, unfolded r] refl rec
        "1.prems"(2)]
    have s1: "filter is_step (events s1) =
        filter is_step (events s) @ [Debug_executing CMD_WRITE_MEMORY]"
      using w r by (auto intro: write_memory_steps)
    have se: "filter is_step (events (snd (emit ?q s1))) =
        filter is_step (events s) @ [Debug_executing CMD_WRITE_MEMORY, ?q]"
      by (simp add: events_emit s1 "1.prems"(2))
    have m: "(l - 1) div 256 = Suc ((l - 257) div 256)"
      using True by (rule div_256_step)
    have m': "(l - 256 - 1) div 256 = (l - 257) div 256" by simp
    from ih show ?thesis
      unfolding m m' se
      by (simp add: map_upt_shift add.assoc distrib_left del: upt_Suc)
  qed
qed

lemma div_256_step_int:
  "256 < l \<Longrightarrow> nat ((l - 1) div 256) = Suc (nat ((l - 257) div (256::int)))"
proof -
  assume l: "256 < l"
  then have "l - 1 = (l - 257) + 256" by simp
  then have "(l - 1) div 256 = (l - 257) div 256 + 1"
    by (simp only: div_add_self2)
  moreover have "0 \<le> (l - 257) div 256"
    using l by (simp add: pos_imp_zdiv_nonneg_iff)
  ultimately show ?thesis by simp
qed

lemma read_while_steps:
  assumes "read_memory_blocks_while a ol cb l off out s = (Inr (l', off', out'), s')"
    and "\<And>x. is_step (cb x)"
  shows "l' = l - 256 * int (nat ((l - 1) div 256)) \<and>
     off' = off + 256 * int (nat ((l - 1) div 256)) \<and>
     filter is_step (events s') = filter is_step (events s) @
       concat (map (\<lambda>k. [Debug_executing CMD_READ_MEMORY,
                            cb (Quotient (off + 256 * int k) ol)])
                 [Suc 0..<Suc (nat ((l - 1) div 256))])"
  using assms
proof (induction a ol cb l off out s rule: read_memory_blocks_while.induct)
  case (1 a ol cb l off out s)
  show ?case
  proof (cases "l > 256")
    case False
    then have "nat ((l - 1) div 256) = 0" by simp
    moreover from False "1.prems"(1) have "l' = l" "off' = off" "s' = s"
      by (simp_all add: read_memory_blocks_while.simps [of a ol cb l off out s]
          READ_BLOCK_SIZE_def)
    ultimately show ?thesis by simp
  next
    case True
    let ?r = "read_memory (a + off) 256 s"
    let ?q = "cb (Quotient (off + 256) ol)"
    obtain r s1 where w: "?r = (r, s1)" by (cases ?r)
    from True "1.prems"(1) w obtain chunk where r: "r = Inr chunk"
      by (cases r)
         (simp_all add: read_memory_blocks_while.simps [of a ol cb l off out s]
           READ_BLOCK_SIZE_def)
    from True "1.prems"(1) w r
    have rec: "read_memory_blocks_while a ol cb (l - 256) (off + 256) (out @ chunk)
        (snd (emit ?q s1)) = (Inr (l', off', out'), s')"
      by (simp add: read_memory_blocks_while.simps [of a ol cb l off out s]
          READ_BLOCK_SIZE_def)
    have t: "READ_BLOCK_SIZE < l" using True by (simp add: READ_BLOCK_SIZE_def)
    note ih = "1.IH" [OF t, unfolded READ_BLOCK_SIZE_def, OF w [symmetric, unfolded r] refl rec
        "1.prems"(2)]
    have s1: "filter is_step (events s1) =
        filter is_step (events s) @ [Debug_executing CMD_READ_MEMORY]"
      using read_memory_steps [of "a + off" 256 s] w by simp
    have se: "filter is_step (events (snd (emit ?q s1))) =
        filter is_step (events s) @ [Debug_executing CMD_READ_MEMORY, ?q]"
      by (simp add: events_emit s1 "1.prems"(2))
    have m: "nat ((l - 1) div 256) = Suc (nat ((l - 257) div 256))"
      using True by (rule div_256_step_int)
    have m': "(l - 256 - 1) div 256 = (l - 257) div 256" by simp
    from ih show ?thesis
      unfolding m m' se
      by (simp add: map_upt_shift add.assoc distrib_left del: upt_Suc)
  qed
qed

lemma last_chunk_nat:
  assumes "0 < l"
  shows "0 < l - 256 * ((l - 1) div (256::nat))"
    and "(l + 255) div 256 = Suc ((l - 1) div 256)"
proof -
  have "256 * ((l - 1) div 256) \<le> l - 1" by simp
  with assms show "0 < l - 256 * ((l - 1) div 256)" by linarith
  from assms have "l + 255 = (l - 1) + 256" by simp
  then show "(l + 255) div 256 = Suc ((l - 1) div 256)"
    by (simp only: div_add_self2)
qed

lemma last_chunk_int:
  assumes "0 < l"
  shows "0 < l - 256 * int (nat ((l - 1) div (256::int)))"
    and "nat ((l + 255) div 256) = Suc (nat ((l - 1) div 256))"
proof -
  have nn: "0 \<le> (l - 1) div 256"
    using assms by (simp add: pos_imp_zdiv_nonneg_iff)
  have "l - 1 = 256 * ((l - 1) div 256) + (l - 1) mod 256" by simp
  moreover have "0 \<le> (l - 1) mod 256" by simp
  ultimately have "256 * ((l - 1) div 256) \<le> l - 1" by linarith
  with assms nn show "0 < l - 256 * int (nat ((l - 1) div 256))" by simp
  have "l + 255 = (l - 1) + 256" by simp
  then have "(l + 255) div 256 = (l - 1) div 256 + 1"
    by (simp only: div_add_self2)
  with nn show "nat ((l + 255) div 256) = Suc (nat ((l - 1) div 256))" by simp
qed

lemma write_memory_blocks_steps:
  assumes ok: "fst (write_memory_blocks a d cb s) = Inr ()" and d: "d \<noteq> []"
    and cb: "\<And>x. is_step (cb x)"
  shows "filter is_step (events (snd (write_memory_blocks a d cb s))) =
     filter is_step (events s) @
     concat (map (\<lambda>k. [Debug_executing CMD_WRITE_MEMORY,
                          cb (Quotient (int (256 * k)) (int (length d)))])
               [1..<(length d + 255) div 256]) @
     [Debug_executing CMD_WRITE_MEMORY, cb One_point_zero]"
proof -
  let ?m = "(length d - 1) div 256"
  let ?loop = "write_memory_blocks_while a d cb (length d) 0 s"
  obtain r s1 where lp: "?loop = (r, s1)" by (cases ?loop)
  from ok lp obtain l' off' where r: "r = Inr (l', off')"
    by (cases r) (auto simp: write_memory_blocks_def bind_def)
  note st = write_while_steps [OF lp [unfolded r] cb]
  have pos: "0 < l'" using st last_chunk_nat(1) [of "length d"] d by simp
  let ?w = "write_memory (a + int off') (take l' (drop off' d)) s1"
  obtain r2 s2 where w: "?w = (r2, s2)" by (cases ?w)
  from ok lp r pos w obtain u where r2: "r2 = Inr u"
    by (cases r2) (auto simp: write_memory_blocks_def bind_def)
  have s2: "filter is_step (events s2) =
      filter is_step (events s1) @ [Debug_executing CMD_WRITE_MEMORY]"
    using w r2 by (auto intro: write_memory_steps)
  have fin: "snd (write_memory_blocks a d cb s) = snd (emit (cb One_point_zero) s2)"
    using lp r pos w r2 by (simp add: write_memory_blocks_def bind_def)
  have n: "(length d + 255) div 256 = Suc ?m"
    using last_chunk_nat(2) [of "length d"] d by simp
  show ?thesis
    unfolding fin n using st
    by (simp add: events_emit s2 cb del: upt_Suc)
qed

lemma read_memory_blocks_steps:
  assumes ok: "fst (read_memory_blocks a n cb s) = Inr out" and n: "0 < n"
    and cb: "\<And>x. is_step (cb x)"
  shows "filter is_step (events (snd (read_memory_blocks a n cb s))) =
     filter is_step (events s) @
     concat (map (\<lambda>k. [Debug_executing CMD_READ_MEMORY, cb (Quotient (256 * int k) n)])
               [1..<nat ((n + 255) div 256)]) @
     [Debug_executing CMD_READ_MEMORY, cb One_point_zero]"
proof -
  let ?m = "nat ((n - 1) div 256)"
  let ?loop = "read_memory_blocks_while a n cb n 0 [] s"
  obtain r s1 where lp: "?loop = (r, s1)" by (cases ?loop)
  from ok lp obtain l' off' out' where r: "r = Inr (l', off', out')"
    by (cases r) (auto simp: read_memory_blocks_def bind_def)
  note st = read_while_steps [OF lp [unfolded r] cb]
  have pos: "0 < l'" using st last_chunk_int(1) [OF n] by simp
  let ?r = "read_memory (a + off') l' s1"
  obtain r2 s2 where w: "?r = (r2, s2)" by (cases ?r)
  from ok lp r pos w obtain chunk where r2: "r2 = Inr chunk"
    by (cases r2) (auto simp: read_memory_blocks_def bind_def)
  have s2: "filter is_step (events s2) =
      filter is_step (events s1) @ [Debug_executing CMD_READ_MEMORY]"
    using read_memory_steps [of "a + off'" l' s1] w by simp
  have fin: "snd (read_memory_blocks a n cb s) = snd (emit (cb One_point_zero) s2)"
    using lp r pos w r2 by (simp add: read_memory_blocks_def bind_def return_def emit_def)
  have k: "nat ((n + 255) div 256) = Suc ?m"
    by (rule last_chunk_int(2) [OF n])
  show ?thesis
    unfolding fin k using st
    by (simp add: events_emit s2 cb del: upt_Suc)
qed

lemma is_step_reporter: "is_step (reporter stage x)"
  by (simp add: is_step_def reporter_def)

lemma reporter_fun: "reporter stage = (\<lambda>x. Progress_report stage (Some x))"
  by (rule ext) (simp add: reporter_def)

text \<open>
  C7, as the code has it. A call of \<open>write_memory_blocks\<close> with data that is not empty,
  or of \<open>read_memory_blocks\<close> with a positive length, that succeeds transfers
  n = ceil(length / 256) chunks; the progress callback is called after each chunk but
  the last, with \<open>256 * k / length\<close> after the k-th chunk, and once with 1.0 after the
  last chunk: n calls for n chunks, in this order, the same for both operations.
\<close>

theorem block_progress_reports:
  "(data \<noteq> [] \<and> fst (write_memory_blocks a data (reporter stage) s) = Inr () \<longrightarrow>
    filter is_step (events (snd (write_memory_blocks a data (reporter stage) s))) =
      filter is_step (events s) @
      concat (map (\<lambda>k. [Debug_executing CMD_WRITE_MEMORY,
                           Progress_report stage
                             (Some (Quotient (int (256 * k)) (int (length data))))])
                [1..<(length data + 255) div 256]) @
      [Debug_executing CMD_WRITE_MEMORY, Progress_report stage (Some One_point_zero)]) \<and>
   (0 < n \<and> fst (read_memory_blocks a n (reporter stage) s) = Inr out \<longrightarrow>
    filter is_step (events (snd (read_memory_blocks a n (reporter stage) s))) =
      filter is_step (events s) @
      concat (map (\<lambda>k. [Debug_executing CMD_READ_MEMORY,
                           Progress_report stage (Some (Quotient (256 * int k) n))])
                [1..<nat ((n + 255) div 256)]) @
      [Debug_executing CMD_READ_MEMORY, Progress_report stage (Some One_point_zero)])"
proof (intro conjI impI; elim conjE)
  assume "data \<noteq> []" and "fst (write_memory_blocks a data (reporter stage) s) = Inr ()"
  from write_memory_blocks_steps [OF this(2,1) is_step_reporter]
  show "filter is_step (events (snd (write_memory_blocks a data (reporter stage) s))) =
      filter is_step (events s) @
      concat (map (\<lambda>k. [Debug_executing CMD_WRITE_MEMORY,
                           Progress_report stage
                             (Some (Quotient (int (256 * k)) (int (length data))))])
                [1..<(length data + 255) div 256]) @
      [Debug_executing CMD_WRITE_MEMORY, Progress_report stage (Some One_point_zero)]"
    by (simp add: reporter_fun)
next
  assume "0 < n" and "fst (read_memory_blocks a n (reporter stage) s) = Inr out"
  from read_memory_blocks_steps [OF this(2,1) is_step_reporter]
  show "filter is_step (events (snd (read_memory_blocks a n (reporter stage) s))) =
      filter is_step (events s) @
      concat (map (\<lambda>k. [Debug_executing CMD_READ_MEMORY,
                           Progress_report stage (Some (Quotient (256 * int k) n))])
                [1..<nat ((n + 255) div 256)]) @
      [Debug_executing CMD_READ_MEMORY, Progress_report stage (Some One_point_zero)]"
    by (simp add: reporter_fun)
qed

lemma encode_second: "encode_address_with_checksum 0x08000100 = Inr [0x08, 0, 1, 0, 0x09]"
  by code_simp

lemma write_260:
  "fst (write_memory_blocks 0x08000000 (replicate 260 0x42) (reporter ''Writing image'')
     \<lparr>synchronization_prefix = [],
      replies = [[0x79], [0x79], [0x79], [0x79], [0x79], [0x79]], events = []\<rparr>) = Inr ()"
  by (simp add: write_memory_blocks_def write_memory_blocks_while.simps WRITE_BLOCK_SIZE_def
      bind_assoc bind_emit bind_def [of "write_memory_blocks_while _ _ _ _ _"]
      bind_write_memory_got [where f = return, unfolded bind_return_right]
      bind_write_memory_got encode_default encode_second return_def emit_def)

lemma read_260:
  "fst (read_memory_blocks 0x08000000 260 (reporter ''Verification'')
     \<lparr>synchronization_prefix = [],
      replies = [[0x79], [0x79], [0x79], replicate 256 0x42,
                 [0x79], [0x79], [0x79], replicate 4 0x42], events = []\<rparr>) =
   Inr (replicate 260 0x42)"
  by (simp add: read_memory_blocks_def read_memory_blocks_while.simps READ_BLOCK_SIZE_def
      bind_assoc bind_emit bind_def [of "read_memory_blocks_while _ _ _ _ _ _"]
      bind_read_memory_got [where f = return, unfolded bind_return_right]
      bind_read_memory_got encode_default encode_second bind_return_fun bind_Pair_Inr
      return_def emit_def replicate_add [symmetric])

theorem block_progress_reports_witness:
  "replicate 260 (0x42::u8) \<noteq> [] \<and>
   fst (write_memory_blocks 0x08000000 (replicate 260 0x42) (reporter ''Writing image'')
     \<lparr>synchronization_prefix = [],
      replies = [[0x79], [0x79], [0x79], [0x79], [0x79], [0x79]], events = []\<rparr>) = Inr () \<and>
   filter is_step (events (snd
     (write_memory_blocks 0x08000000 (replicate 260 0x42) (reporter ''Writing image'')
       \<lparr>synchronization_prefix = [],
        replies = [[0x79], [0x79], [0x79], [0x79], [0x79], [0x79]], events = []\<rparr>))) =
     [Debug_executing 0x31, Progress_report ''Writing image'' (Some (Quotient 256 260)),
      Debug_executing 0x31, Progress_report ''Writing image'' (Some One_point_zero)] \<and>
   (0::int) < 260 \<and>
   fst (read_memory_blocks 0x08000000 260 (reporter ''Verification'')
     \<lparr>synchronization_prefix = [],
      replies = [[0x79], [0x79], [0x79], replicate 256 0x42,
                 [0x79], [0x79], [0x79], replicate 4 0x42], events = []\<rparr>) =
     Inr (replicate 260 0x42) \<and>
   filter is_step (events (snd
     (read_memory_blocks 0x08000000 260 (reporter ''Verification'')
       \<lparr>synchronization_prefix = [],
        replies = [[0x79], [0x79], [0x79], replicate 256 0x42,
                   [0x79], [0x79], [0x79], replicate 4 0x42], events = []\<rparr>))) =
     [Debug_executing 0x11, Progress_report ''Verification'' (Some (Quotient 256 260)),
      Debug_executing 0x11, Progress_report ''Verification'' (Some One_point_zero)]"
proof -
  let ?w = "\<lparr>synchronization_prefix = [],
      replies = [[0x79], [0x79], [0x79], [0x79], [0x79], [0x79 :: u8]], events = []\<rparr>"
  let ?r = "\<lparr>synchronization_prefix = [],
      replies = [[0x79], [0x79], [0x79], replicate 256 0x42,
                 [0x79], [0x79], [0x79], replicate 4 (0x42 :: u8)], events = []\<rparr>"
  have n: "replicate 260 (0x42::u8) \<noteq> []" by simp
  have p: "(0::int) < 260" by simp
  have two: "[Suc 0..<2] = [Suc 0]" by (simp add: upt_rec)
  from block_progress_reports [where data = "replicate 260 0x42" and a = "0x08000000"
      and stage = "''Writing image''" and s = ?w,
      THEN conjunct1, rule_format, OF conjI, OF n write_260]
  have w: "filter is_step (events (snd
     (write_memory_blocks 0x08000000 (replicate 260 0x42) (reporter ''Writing image'') ?w))) =
     [Debug_executing 0x31, Progress_report ''Writing image'' (Some (Quotient 256 260)),
      Debug_executing 0x31, Progress_report ''Writing image'' (Some One_point_zero)]"
    by (simp add: two CMD_WRITE_MEMORY_def)
  from block_progress_reports [where n = 260 and a = "0x08000000"
      and stage = "''Verification''" and s = ?r,
      THEN conjunct2, rule_format, OF conjI, OF p read_260]
  have r: "filter is_step (events (snd
     (read_memory_blocks 0x08000000 260 (reporter ''Verification'') ?r))) =
     [Debug_executing 0x11, Progress_report ''Verification'' (Some (Quotient 256 260)),
      Debug_executing 0x11, Progress_report ''Verification'' (Some One_point_zero)]"
    by (simp add: two CMD_READ_MEMORY_def)
  from n write_260 w p read_260 r show ?thesis
    by (intro conjI) assumption+
qed

text \<open>
  One chunk of four bytes, written and read: the callback is called once, with 1.0, and
  not once after the chunk and once more on completion.
\<close>

theorem block_progress_reports_counterexample:
  "write_memory_blocks 0x08000000 [1, 2, 3, 4] (reporter ''Writing image'')
     \<lparr>synchronization_prefix = [], replies = [[0x79], [0x79], [0x79]], events = []\<rparr> =
   (Inr (),
    \<lparr>synchronization_prefix = [], replies = [],
      events = [Debug_executing 0x31, Write [0x31], Write [0xCE], Read 1,
                Write [0x08, 0, 0, 0, 0x08], Read 1,
                Write [3], Write [1, 2, 3, 4], Write [7], Read 1,
                Progress_report ''Writing image'' (Some One_point_zero)]\<rparr>) \<and>
   read_memory_blocks 0x08000000 4 (reporter ''Verification'')
     \<lparr>synchronization_prefix = [],
      replies = [[0x79], [0x79], [0x79], [1, 2, 3, 4]], events = []\<rparr> =
   (Inr [1, 2, 3, 4],
    \<lparr>synchronization_prefix = [], replies = [],
      events = [Debug_executing 0x11, Write [0x11], Write [0xEE], Read 1,
                Write [0x08, 0, 0, 0, 0x08], Read 1,
                Write [3], Write [0xFC], Read 1, Read 4,
                Progress_report ''Verification'' (Some One_point_zero)]\<rparr>)"
  by (simp add: bind_write_memory_blocks_one [where f = return, unfolded bind_return_right]
      bind_read_memory_blocks_one [where f = return, unfolded bind_return_right]
      bind_write_memory_got bind_read_memory_got encode_default bind_emit return_def
      emit_def reporter_def)

section \<open>The padded image\<close>

lemma chunks_Nil: "chunks [] = []"
  by (simp add: chunks.simps)

lemma chunks_nonempty: "data \<noteq> [] \<Longrightarrow> chunks data = take 256 data # chunks (drop 256 data)"
  by (subst chunks.simps) simp

lemma chunks_eq_Nil: "chunks data = [] \<longleftrightarrow> data = []"
  by (subst chunks.simps) simp

lemma concat_chunks: "concat (chunks data) = data"
proof (induction data rule: chunks.induct)
  case (1 data)
  show ?case
  proof (cases "data = []")
    case True
    then show ?thesis by (simp add: chunks_Nil)
  next
    case False
    with 1 show ?thesis by (simp add: chunks_nonempty)
  qed
qed

lemma write_while_step:
  "256 < l \<Longrightarrow>
   write_memory_blocks_while a d cb l off =
     bind (write_memory (a + int off) (take 256 (drop off d))) (\<lambda>_.
     bind (emit (cb (Quotient (int (off + 256)) (int (length d))))) (\<lambda>_.
     write_memory_blocks_while a d cb (l - 256) (off + 256)))"
  by (rule ext, subst write_memory_blocks_while.simps)
     (simp add: WRITE_BLOCK_SIZE_def bind_def emit_def split: prod.splits sum.splits)

lemma write_while_chunks:
  "l = length d - off \<Longrightarrow>
   bind (write_memory_blocks_while a d cb l off) (\<lambda>(l', off').
     bind (if l' > 0 then write_memory (a + int off') (take l' (drop off' d))
           else return ()) K) =
   bind (write_chunks a (length d) cb off (chunks (drop off d))) K"
proof (induction l arbitrary: off rule: less_induct)
  case (less l)
  note l = less.prems
  show ?case
  proof (cases "l > 256")
    case False
    then have fin: "write_memory_blocks_while a d cb l off = return (l, off)"
      by (intro write_while_done) simp
    show ?thesis
    proof (cases "l = 0")
      case True
      then have "drop off d = []" using l by simp
      with True show ?thesis
        by (simp add: write_while_done bind_return_fun chunks_Nil)
    next
      case nz: False
      have ne: "drop off d \<noteq> []" using nz l by simp
      have len: "length (drop off d) \<le> 256" using False l by simp
      have c: "chunks (drop off d) = [drop off d]"
        using ne len by (simp add: chunks_nonempty chunks_Nil)
      have t: "take l (drop off d) = drop off d" using l by simp
      from nz show ?thesis
        unfolding fin by (simp add: bind_return_fun c t bind_assoc)
    qed
  next
    case True
    let ?c = "take 256 (drop off d)"
    have ne: "drop off d \<noteq> []" using True l by auto
    have lc: "length ?c = 256" using True l by simp
    have dd: "drop 256 (drop off d) = drop (off + 256) d"
      by (simp add: add.commute)
    have rest: "chunks (drop (off + 256) d) \<noteq> []"
      using True l by (simp add: chunks_eq_Nil)
    have c: "chunks (drop off d) = ?c # chunks (drop (off + 256) d)"
      using chunks_nonempty [OF ne] by (simp only: dd)
    have "l - 256 < l" "l - 256 = length d - (off + 256)" using True l by simp_all
    note ih = less.IH [OF this]
    have mn: "min (length d - off) 256 = 256" using True l by simp
    show ?thesis
      by (simp add: write_while_step [OF True] bind_assoc ih c rest lc mn)
  qed
qed

lemma write_memory_blocks_chunks:
  "write_memory_blocks a d cb =
     bind (write_chunks a (length d) cb 0 (chunks d)) (\<lambda>_. emit (cb One_point_zero))"
  using write_while_chunks [of "length d" d 0 a cb "\<lambda>_. emit (cb One_point_zero)"]
  by (simp add: write_memory_blocks_def)

lemma sent_append: "sent (xs @ ys) = sent xs @ sent ys"
  by (induction xs rule: sent.induct) simp_all

lemma wait_for_ack_sent: "wait_for_ack s = (r, s') \<Longrightarrow> sent (events s') = sent (events s)"
  by (auto simp: wait_for_ack_step sent_append split: list.splits)

lemma sendsD:
  "sends m bytes \<Longrightarrow>
   \<exists>p q. sent (events (snd (m s))) = sent (events s) @ p \<and> p @ q = bytes \<and>
     (\<forall>u. fst (m s) = Inr u \<longrightarrow> q = [])"
  by (simp add: sends_def)

lemma sends_return: "sends (return v) []"
  by (simp add: sends_def return_def)

lemma sends_raise: "sends (raise e) bytes"
  by (simp add: sends_def raise_def)

lemma sends_emit: "sent [ev] = [] \<Longrightarrow> sends (emit ev) []"
  by (simp add: sends_def emit_def sent_append)

lemma sends_write_out: "sends (write_out d) d"
  by (simp add: sends_def write_out_def emit_def sent_append)

lemma sends_wait_for_ack: "sends wait_for_ack []"
proof -
  have "sent (events (snd (wait_for_ack s))) = sent (events s)" for s
    by (rule wait_for_ack_sent [of s "fst (wait_for_ack s)"]) simp
  then show ?thesis
    by (simp add: sends_def)
qed

lemma sends_bind:
  assumes m: "sends m bytes1" and f: "\<And>x. sends (f x) bytes2"
  shows "sends (bind m f) (bytes1 @ bytes2)"
  unfolding sends_def
proof
  fix s
  from sendsD [OF m, of s] obtain p q where
    e: "sent (events (snd (m s))) = sent (events s) @ p" and pq: "p @ q = bytes1" and
    ok: "\<forall>u. fst (m s) = Inr u \<longrightarrow> q = []"
    by blast
  show "\<exists>p q. sent (events (snd (bind m f s))) = sent (events s) @ p \<and>
          p @ q = bytes1 @ bytes2 \<and> (\<forall>u. fst (bind m f s) = Inr u \<longrightarrow> q = [])"
  proof (cases "fst (m s)")
    case (Inl err)
    then have "bind m f s = (Inl err, snd (m s))"
      by (cases "m s") (simp add: bind_def)
    with e pq show ?thesis
      by (intro exI [of _ p] exI [of _ "q @ bytes2"]) simp
  next
    case (Inr x)
    then have b: "bind m f s = f x (snd (m s))"
      by (cases "m s") (simp add: bind_def)
    from Inr ok pq have p: "p = bytes1"
      by simp
    from sendsD [OF f, of x "snd (m s)"] obtain p2 q2 where
      e2: "sent (events (snd (f x (snd (m s))))) = sent (events (snd (m s))) @ p2" and
      pq2: "p2 @ q2 = bytes2" and
      ok2: "\<forall>u. fst (f x (snd (m s))) = Inr u \<longrightarrow> q2 = []"
      by blast
    from e e2 pq2 ok2 show ?thesis
      by (intro exI [of _ "bytes1 @ p2"] exI [of _ q2]) (simp add: b p)
  qed
qed

lemma sends_generic: "sends (generic_execute_and_confirm cmd) [cmd, cmd XOR 0xFF]"
proof -
  have "sends (generic_execute_and_confirm cmd) ([] @ [cmd] @ [cmd XOR 0xFF] @ [])"
    unfolding generic_execute_and_confirm_def
    by (intro sends_bind sends_emit sends_write_out sends_wait_for_ack) simp
  then show ?thesis
    by simp
qed

lemma sends_write_memory: "sends (write_memory a c) (frame a c)"
proof (cases "length c > 256 \<or> length c = 0 \<or> length c mod 4 \<noteq> 0")
  case True
  then show ?thesis
    by (simp add: write_memory_def sends_raise)
next
  case valid: False
  show ?thesis
  proof (cases "encode_address_with_checksum a")
    case (Inl err)
    have "sends (bind (lift (Inl err :: error + u8 list)) f) []" for f :: "u8 list \<Rightarrow> unit action"
      by (simp add: sends_def bind_lift_Inl)
    then have "sends (write_memory a c) ([CMD_WRITE_MEMORY, CMD_WRITE_MEMORY XOR 0xFF] @ [])"
      using valid unfolding write_memory_def Inl
      by (simp only: if_False) (intro sends_bind sends_generic)
    then show ?thesis
      by (simp add: frame_def Inl CMD_WRITE_MEMORY_def)
  next
    case (Inr ab)
    let ?n = "of_nat (length c - 1) :: u8"
    have lft: "sends (bind (lift (Inr ab :: error + u8 list)) f) bytes"
      if "sends (f ab) bytes" for f :: "u8 list \<Rightarrow> unit action" and bytes
      using that by (simp add: sends_def bind_lift_Inr)
    have "sends (write_memory a c)
        ([CMD_WRITE_MEMORY, CMD_WRITE_MEMORY XOR 0xFF] @ ab @ [] @ [?n] @ c @
         [foldl (\<lambda>a x. a XOR x) ?n c] @ [])"
      using valid unfolding write_memory_def Inr Let_def
      by (simp only: if_False)
         (intro sends_bind sends_generic lft sends_write_out sends_wait_for_ack)
    then show ?thesis
      by (simp add: frame_def Inr CMD_WRITE_MEMORY_def)
  qed
qed

lemma sends_write_chunks:
  assumes "\<And>x. sent [cb x] = []"
  shows "sends (write_chunks a n cb off cs) (frames a off cs)"
proof (induction cs arbitrary: off)
  case Nil
  show ?case
    by (simp add: sends_return)
next
  case (Cons c cs)
  show ?case
  proof (cases "cs = []")
    case True
    have "sends (bind (write_memory (a + int off) c) (\<lambda>_. return ()))
        (frame (a + int off) c @ [])"
      by (intro sends_bind sends_write_memory sends_return)
    with True show ?thesis
      by simp
  next
    case False
    have "sends (bind (write_memory (a + int off) c) (\<lambda>_.
        bind (emit (cb (Quotient (int (off + length c)) (int n)))) (\<lambda>_.
        write_chunks a n cb (off + length c) cs)))
        (frame (a + int off) c @ [] @ frames a (off + length c) cs)"
      by (intro sends_bind sends_write_memory sends_emit assms Cons.IH)
    with False show ?thesis
      by simp
  qed
qed

lemma emits_only_True_rest:
  "emits_only (\<lambda>_. True)
     (bind (emit (Progress_report ''Writing image'' (Some One_point_zero))) (\<lambda>_.
      bind (read_memory_blocks a n (\<lambda>x. Progress_report ''Verification'' (Some x)))
        (\<lambda>readback.
      bind (if readback \<noteq> img then raise (STM32LoaderException Verification_failed)
            else return ()) (\<lambda>_.
      if go_arg then go a else return ()))))"
  by (intro emits_only_bind emits_only_emit emits_only_read_memory_blocks emits_only_if
      emits_only_go emits_only_raise emits_only_return)
     (simp_all add: port_events_def)

lemma load_as_chunks:
  "load port binary_image load_address ro wu go_arg sp =
     (let (result, loader) =
        bind (load_configure ro wu) (\<lambda>var_get.
        bind (load_erase var_get) (\<lambda>_.
        bind (write_chunks (load_address_or_default load_address)
                (length (pad_image binary_image))
                (\<lambda>x. Progress_report ''Writing image'' (Some x)) 0
                (chunks (pad_image binary_image))) (\<lambda>_.
        bind (emit (Progress_report ''Writing image'' (Some One_point_zero))) (\<lambda>_.
        bind (read_memory_blocks (load_address_or_default load_address)
                (int (length (pad_image binary_image)))
                (\<lambda>x. Progress_report ''Verification'' (Some x))) (\<lambda>readback.
        bind (if readback \<noteq> pad_image binary_image
              then raise (STM32LoaderException Verification_failed)
              else return ()) (\<lambda>_.
        if go_arg then go (load_address_or_default load_address) else return ()))))))
          (new_loader port sp)
      in (result, close loader))"
  by (simp add: load_def load_try_stages load_transfer_def write_memory_blocks_chunks
      bind_assoc)

lemma no_write_before_transfer:
  "CMD_WRITE_MEMORY \<notin> set (executed (events (snd
     (bind (load_configure ro wu) load_erase (new_loader port sp)))))"
proof -
  let ?P = "\<lambda>e. e \<noteq> Debug_executing CMD_WRITE_MEMORY"
  have "emits_only ?P (bind (load_configure ro wu) load_erase)"
    by (intro emits_only_bind emits_only_load_configure emits_only_load_erase)
       (simp_all add: port_events_def log_events_def CMD_GET_def
         CMD_GET_VERSION_AND_PROTECTION_STATUS_def CMD_GET_ID_def CMD_READOUT_UNPROTECT_def
         CMD_WRITE_UNPROTECT_def CMD_ERASE_def CMD_EXTENDED_ERASE_def CMD_WRITE_MEMORY_def)
  from emits_onlyD [OF this, of "new_loader port sp"] obtain evs where
    e: "events (snd (bind (load_configure ro wu) load_erase (new_loader port sp))) =
        events (new_loader port sp) @ evs" and p: "list_all ?P evs" by blast
  have "CMD_WRITE_MEMORY \<notin> set (executed evs)"
    using p by (auto simp: in_executed list_all_iff)
  then show ?thesis
    by (simp add: e executed_append executed_new_loader)
qed

lemma bind_run_Inr: "m s = (Inr x, s') \<Longrightarrow> bind m f s = f x s'"
  by (simp add: bind_def)

lemma bind_run_Inl: "m s = (Inl e, s') \<Longrightarrow> bind m f s = (Inl e, s')"
  by (simp add: bind_def)

lemma load_sends_frames:
  "\<exists>p q post.
     sent (events (snd (load port binary_image load_address ro wu go_arg sp))) =
       sent (events (snd (bind (load_configure ro wu) load_erase (new_loader port sp)))) @
       p @ post \<and>
     p @ q = frames (load_address_or_default load_address) 0 (chunks (pad_image binary_image)) \<and>
     (q = [] \<or> post = []) \<and>
     (fst (bind (load_configure ro wu) load_erase (new_loader port sp)) = Inr () \<and>
      fst (write_chunks (load_address_or_default load_address)
             (length (pad_image binary_image))
             (\<lambda>x. Progress_report ''Writing image'' (Some x)) 0
             (chunks (pad_image binary_image))
             (snd (bind (load_configure ro wu) load_erase (new_loader port sp)))) = Inr () \<longrightarrow>
      q = [])"
proof -
  let ?a = "load_address_or_default load_address" and ?img = "pad_image binary_image"
  let ?cb = "\<lambda>x. Progress_report ''Writing image'' (Some x)"
  let ?rest = "bind (emit (Progress_report ''Writing image'' (Some One_point_zero))) (\<lambda>_.
      bind (read_memory_blocks ?a (int (length ?img))
              (\<lambda>x. Progress_report ''Verification'' (Some x))) (\<lambda>readback.
      bind (if readback \<noteq> ?img then raise (STM32LoaderException Verification_failed)
            else return ()) (\<lambda>_.
      if go_arg then go ?a else return ())))"
  let ?prepare = "bind (load_configure ro wu) load_erase"
  let ?transfer = "write_chunks ?a (length ?img) ?cb 0 (chunks ?img)"
  let ?fs = "frames ?a 0 (chunks ?img)"
  define r1 where "r1 = fst (?prepare (new_loader port sp))"
  define s1 where "s1 = snd (?prepare (new_loader port sp))"
  define r2 where "r2 = fst (?transfer s1)"
  define s2 where "s2 = snd (?transfer s1)"
  have c1: "?prepare (new_loader port sp) = (r1, s1)"
    by (simp add: r1_def s1_def)
  have w1: "?transfer s1 = (r2, s2)"
    by (simp add: r2_def s2_def)
  have ld: "load port binary_image load_address ro wu go_arg sp =
      (let (result, loader) =
         bind ?prepare (\<lambda>_. bind ?transfer (\<lambda>_. ?rest)) (new_loader port sp)
       in (result, close loader))"
    by (simp add: load_as_chunks bind_assoc)
  have "sends ?transfer ?fs"
    by (rule sends_write_chunks) simp
  from sendsD [OF this, of s1] obtain p q where
    e2: "sent (events s2) = sent (events s1) @ p" and pq: "p @ q = ?fs" and
    ok: "\<forall>u. r2 = Inr u \<longrightarrow> q = []"
    unfolding r2_def s2_def by blast
  have "\<exists>p q post.
     sent (events (snd (load port binary_image load_address ro wu go_arg sp))) =
       sent (events s1) @ p @ post \<and>
     p @ q = ?fs \<and> (q = [] \<or> post = []) \<and> (r1 = Inr () \<and> r2 = Inr () \<longrightarrow> q = [])"
  proof (cases r1)
    case (Inl err)
    with c1 have "?prepare (new_loader port sp) = (Inl err, s1)"
      by simp
    then have "bind ?prepare (\<lambda>_. bind ?transfer (\<lambda>_. ?rest)) (new_loader port sp) =
        (Inl err, s1)"
      by (rule bind_run_Inl)
    then have "sent (events (snd (load port binary_image load_address ro wu go_arg sp))) =
        sent (events s1)"
      by (simp add: ld close_def sent_append)
    with Inl show ?thesis
      by (intro exI [of _ "[]"] exI [of _ ?fs]) simp
  next
    case prepared: (Inr u1)
    with c1 have c2: "?prepare (new_loader port sp) = (Inr (), s1)"
      by simp
    show ?thesis
    proof (cases r2)
      case (Inl err)
      with w1 have "?transfer s1 = (Inl err, s2)"
        by simp
      then have "bind ?transfer (\<lambda>_. ?rest) s1 = (Inl err, s2)"
        by (rule bind_run_Inl)
      then have "bind ?prepare (\<lambda>_. bind ?transfer (\<lambda>_. ?rest)) (new_loader port sp) =
          (Inl err, s2)"
        by (simp only: bind_run_Inr [where m = ?prepare, OF c2])
      then have "sent (events (snd (load port binary_image load_address ro wu go_arg sp))) =
          sent (events s2)"
        by (simp add: ld close_def sent_append)
      with Inl e2 pq show ?thesis
        by (intro exI [of _ p] exI [of _ q] exI [of _ "[]"]) simp
    next
      case (Inr u2)
      with w1 have w2: "?transfer s1 = (Inr (), s2)"
        by simp
      from Inr ok have q: "q = []"
        by simp
      from emits_onlyD [OF emits_only_True_rest, of ?a "int (length ?img)" ?img go_arg s2]
      obtain evs where e3: "events (snd (?rest s2)) = events s2 @ evs"
        by blast
      have "bind ?prepare (\<lambda>_. bind ?transfer (\<lambda>_. ?rest)) (new_loader port sp) = ?rest s2"
        by (simp only: bind_run_Inr [where m = ?prepare, OF c2]
            bind_run_Inr [where m = ?transfer, OF w2])
      then have "sent (events (snd (load port binary_image load_address ro wu go_arg sp))) =
          sent (events s1) @ p @ sent (evs @ [Close])"
        by (simp add: ld close_def e3 e2 sent_append case_prod_beta)
      with pq q show ?thesis
        by (intro exI [of _ p] exI [of _ q] exI [of _ "sent (evs @ [Close])"]) simp
    qed
  qed
  then show ?thesis
    unfolding r1_def r2_def s1_def by simp
qed

lemma chunks_one: "chunks [0x42, 0xFF, 0xFF, 0xFF] = [[0x42, 0xFF, 0xFF, 0xFF]]"
  by (simp add: chunks_nonempty chunks_Nil)

text \<open>
  C9. \<open>load\<close> pads the image with bytes 0xFF up to the next multiple of 4 (an image
  whose length is a multiple of 4 gets none, one of 1001 bytes gets three), and the blocks of
  the padded image make up the padded image. Every run of \<open>load\<close>, whatever its outcome,
  is the configuration and the erase, then the WRITE MEMORY commands for the blocks of the
  padded image, then the read-back of the length of the padded image and its comparison with
  the padded image, then GO. No WRITE MEMORY command is executed before the erase is over,
  and the bytes sent to the port from then on are the frames of the blocks of the padded
  image followed by whatever the later steps send, or a prefix of these frames and nothing
  else when the run ends there; they are all of the frames when the writes succeed, also
  when a later step fails.
\<close>

theorem load_pads_image:
  "pad_image binary_image =
     binary_image @ replicate ((4 - length binary_image mod 4) mod 4) 0xFF \<and>
   length (pad_image binary_image) mod 4 = 0 \<and>
   concat (chunks (pad_image binary_image)) = pad_image binary_image \<and>
   load port binary_image load_address ro wu go_arg sp =
     (let (result, loader) =
        bind (load_configure ro wu) (\<lambda>var_get.
        bind (load_erase var_get) (\<lambda>_.
        bind (write_chunks (load_address_or_default load_address)
                (length (pad_image binary_image))
                (\<lambda>x. Progress_report ''Writing image'' (Some x)) 0
                (chunks (pad_image binary_image))) (\<lambda>_.
        bind (emit (Progress_report ''Writing image'' (Some One_point_zero))) (\<lambda>_.
        bind (read_memory_blocks (load_address_or_default load_address)
                (int (length (pad_image binary_image)))
                (\<lambda>x. Progress_report ''Verification'' (Some x))) (\<lambda>readback.
        bind (if readback \<noteq> pad_image binary_image
              then raise (STM32LoaderException Verification_failed)
              else return ()) (\<lambda>_.
        if go_arg then go (load_address_or_default load_address) else return ()))))))
          (new_loader port sp)
      in (result, close loader)) \<and>
   CMD_WRITE_MEMORY \<notin> set (executed (events (snd
     (bind (load_configure ro wu) load_erase (new_loader port sp))))) \<and>
   (\<exists>p q post.
     sent (events (snd (load port binary_image load_address ro wu go_arg sp))) =
       sent (events (snd (bind (load_configure ro wu) load_erase (new_loader port sp)))) @
       p @ post \<and>
     p @ q = frames (load_address_or_default load_address) 0 (chunks (pad_image binary_image)) \<and>
     (q = [] \<or> post = []) \<and>
     (fst (bind (load_configure ro wu) load_erase (new_loader port sp)) = Inr () \<and>
      fst (write_chunks (load_address_or_default load_address)
             (length (pad_image binary_image))
             (\<lambda>x. Progress_report ''Writing image'' (Some x)) 0
             (chunks (pad_image binary_image))
             (snd (bind (load_configure ro wu) load_erase (new_loader port sp)))) = Inr () \<longrightarrow>
      q = []))"
proof (intro conjI)
  show "pad_image binary_image =
     binary_image @ replicate ((4 - length binary_image mod 4) mod 4) 0xFF"
    by (rule pad_image_eq)
  show "length (pad_image binary_image) mod 4 = 0"
    by (rule length_pad_image)
  show "concat (chunks (pad_image binary_image)) = pad_image binary_image"
    by (rule concat_chunks)
  show "CMD_WRITE_MEMORY \<notin> set (executed (events (snd
     (bind (load_configure ro wu) load_erase (new_loader port sp)))))"
    by (rule no_write_before_transfer)
qed (rule load_as_chunks, rule load_sends_frames)

theorem load_pads_image_witness:
  "fst (bind (load_configure False False) load_erase
          (new_loader (good_device [0x42, 0xFF, 0xFF, 0x00]) None)) = Inr () \<and>
   fst (write_chunks (load_address_or_default None) (length (pad_image [0x42]))
          (\<lambda>x. Progress_report ''Writing image'' (Some x)) 0 (chunks (pad_image [0x42]))
          (snd (bind (load_configure False False) load_erase
                  (new_loader (good_device [0x42, 0xFF, 0xFF, 0x00]) None)))) = Inr () \<and>
   fst (load (good_device [0x42, 0xFF, 0xFF, 0x00]) [0x42] None False False True None) =
     Inl (STM32LoaderException Verification_failed) \<and>
   (\<exists>post.
      sent (events (snd
        (load (good_device [0x42, 0xFF, 0xFF, 0x00]) [0x42] None False False True None))) =
      sent (events (snd (bind (load_configure False False) load_erase
                           (new_loader (good_device [0x42, 0xFF, 0xFF, 0x00]) None)))) @
      [0x31, 0xCE, 0x08, 0, 0, 0, 0x08, 3, 0x42, 0xFF, 0xFF, 0xFF, 0xBE] @ post)"
proof -
  let ?port = "good_device [0x42, 0xFF, 0xFF, 0x00]"
  let ?prepared = "bind (load_configure False False) load_erase (new_loader ?port None)"
  have prepare: "fst ?prepared = Inr ()"
    by (simp add: good_device_def run_simps)
  have transfer: "fst (write_chunks (load_address_or_default None) (length (pad_image [0x42]))
          (\<lambda>x. Progress_report ''Writing image'' (Some x)) 0 (chunks (pad_image [0x42]))
          (snd ?prepared)) = Inr ()"
    by (simp add: pad1 chunks_one good_device_def encode_default return_def run_simps)
  have failure: "fst (load ?port [0x42] None False False True None) =
      Inl (STM32LoaderException Verification_failed)"
    by (simp add: pad1 good_device_def bind_read_memory_blocks_one bind_write_memory_blocks_one
        encode_default raise_def run_simps)
  have fs: "frames (load_address_or_default None) 0 (chunks (pad_image [0x42])) =
      [0x31, 0xCE, 0x08, 0, 0, 0, 0x08, 3, 0x42, 0xFF, 0xFF, 0xFF, 0xBE]"
    by (simp add: pad1 chunks_one frame_def encode_default load_address_or_default_def
        DEFAULT_FLASH_ADDRESS_def CMD_WRITE_MEMORY_def)
  from load_pads_image [of "[0x42]" ?port None False False True None]
  obtain p q post where
    e: "sent (events (snd (load ?port [0x42] None False False True None))) =
        sent (events (snd ?prepared)) @ p @ post" and
    pq: "p @ q = frames (load_address_or_default None) 0 (chunks (pad_image [0x42]))" and
    q: "fst ?prepared = Inr () \<and>
        fst (write_chunks (load_address_or_default None) (length (pad_image [0x42]))
          (\<lambda>x. Progress_report ''Writing image'' (Some x)) 0 (chunks (pad_image [0x42]))
          (snd ?prepared)) = Inr () \<longrightarrow> q = []"
    by blast
  from q prepare transfer have "q = []"
    by blast
  with pq fs have "p = [0x31, 0xCE, 0x08, 0, 0, 0, 0x08, 3, 0x42, 0xFF, 0xFF, 0xFF, 0xBE]"
    by simp
  with e have "\<exists>post.
      sent (events (snd (load ?port [0x42] None False False True None))) =
      sent (events (snd ?prepared)) @
      [0x31, 0xCE, 0x08, 0, 0, 0, 0x08, 3, 0x42, 0xFF, 0xFF, 0xFF, 0xBE] @ post"
    by blast
  with prepare transfer failure show ?thesis
    by blast
qed

end
